theory Spec2Isabelle
  imports Complex_Main "HOL-Library.Sublist"
begin

section \<open>Python string operations used by the client\<close>

text \<open>
  Python strings are modelled as \<open>string\<close> (lists of characters with code points below 256).
  \<open>str.strip()\<close> without arguments removes the characters for which \<open>str.isspace\<close> holds;
  below 256 these are the code points 9 to 13, 28 to 32, 133 and 160.
\<close>

definition is_space :: "char \<Rightarrow> bool" where
  "is_space c = (let n = (of_char c :: nat)
                 in (9 \<le> n \<and> n \<le> 13) \<or> (28 \<le> n \<and> n \<le> 32) \<or> n = 133 \<or> n = 160)"

definition lstrip :: "string \<Rightarrow> string" where
  "lstrip s = dropWhile is_space s"

definition rstrip :: "string \<Rightarrow> string" where
  "rstrip s = rev (dropWhile is_space (rev s))"

definition strip :: "string \<Rightarrow> string" where
  "strip s = rstrip (lstrip s)"

text \<open>\<open>s.rstrip(chars)\<close>: drop trailing characters that occur in \<open>chars\<close>.\<close>

definition rstrip_chars :: "string \<Rightarrow> string \<Rightarrow> string" where
  "rstrip_chars chars s = rev (dropWhile (\<lambda>c. c \<in> set chars) (rev s))"

definition endswith :: "string \<Rightarrow> string \<Rightarrow> bool" where
  "endswith s p = prefix (rev p) (rev s)"

text \<open>\<open>sub in s\<close> for strings: \<open>sub\<close> occurs as a contiguous piece of \<open>s\<close>.\<close>

primrec contains :: "string \<Rightarrow> string \<Rightarrow> bool" where
  "contains sub [] = (sub = [])"
| "contains sub (c # cs) = (prefix sub (c # cs) \<or> contains sub cs)"

text \<open>
  \<open>s.replace(old, new)\<close> for a non-empty \<open>old\<close>: every non-overlapping occurrence, scanning
  from the left, is replaced. (With an empty \<open>old\<close> Python inserts \<open>new\<close> around every
  character; the client never does that and the model leaves such a string unchanged.)
\<close>

fun replace :: "string \<Rightarrow> string \<Rightarrow> string \<Rightarrow> string" where
  "replace old new [] = []"
| "replace old new (c # cs) =
     (if old \<noteq> [] \<and> prefix old (c # cs)
      then new @ replace old new (drop (length old - 1) cs)
      else c # replace old new cs)"

section \<open>config.py\<close>

definition API_VERSION :: string where
  "API_VERSION = ''v1''"

definition MAX_RETRIES :: nat where
  "MAX_RETRIES = 3"

definition RETRY_DELAY :: rat where
  "RETRY_DELAY = 1"

definition LIMIT_PER_SEC :: nat where
  "LIMIT_PER_SEC = 3"

text \<open>
  The \<open>ValueError\<close>s of config.py, one constructor per message:
  \<open>DomainEmpty\<close> is raised by \<open>get_base_url\<close>, \<open>DomainRequired\<close> and \<open>TokenRequired\<close>
  by \<open>KaitenCredentials.__init__\<close>.
\<close>

datatype value_error = DomainEmpty | DomainRequired | TokenRequired

definition normalize_domain :: "string \<Rightarrow> string" where
  "normalize_domain domain =
     rstrip_chars ''/'' (replace ''http://'' '''' (replace ''https://'' '''' (strip domain)))"

definition get_base_url :: "string \<Rightarrow> value_error + string" where
  "get_base_url domain =
     (if domain = [] then Inl DomainEmpty
      else let d = normalize_domain domain;
               d' = (if \<not> endswith d ''.kaiten.ru'' then d @ ''.kaiten.ru'' else d)
           in Inr (''https://'' @ d' @ ''/api/'' @ API_VERSION))"

record credentials =
  cred_domain :: string
  cred_token :: string

definition KaitenCredentials_init :: "string \<Rightarrow> string \<Rightarrow> value_error + credentials" where
  "KaitenCredentials_init domain token =
     (if domain = [] \<or> strip domain = [] then Inl DomainRequired
      else if token = [] \<or> strip token = [] then Inl TokenRequired
      else Inr \<lparr>cred_domain = strip domain, cred_token = strip token\<rparr>)"

definition base_url :: "credentials \<Rightarrow> value_error + string" where
  "base_url c = get_base_url (cred_domain c)"

subsection \<open>The base URL as the specification words it\<close>

text \<open>
  The specification describes the normalization as stripping a leading \<open>https://\<close> and a
  leading \<open>http://\<close>; \<open>spec_base_url\<close> follows these words, for comparison with
  \<open>get_base_url\<close>.
\<close>

definition strip_prefix :: "string \<Rightarrow> string \<Rightarrow> string" where
  "strip_prefix p s = (if prefix p s then drop (length p) s else s)"

definition spec_normalize_domain :: "string \<Rightarrow> string" where
  "spec_normalize_domain domain =
     rstrip_chars ''/'' (strip_prefix ''http://'' (strip_prefix ''https://'' (strip domain)))"

definition spec_base_url :: "string \<Rightarrow> string" where
  "spec_base_url domain =
     (let d = spec_normalize_domain domain
      in ''https://'' @ (if endswith d ''.kaiten.ru'' then d else d @ ''.kaiten.ru'')
           @ ''/api/'' @ API_VERSION)"

section \<open>models/base.py\<close>

text \<open>
  Dictionaries are mutable objects that live in a store: an address is an index into the
  list of dictionaries allocated so far. A value held by a dictionary is a scalar or a
  reference to another dictionary, so that two names for one dictionary can be told from
  two dictionaries with the same items.
\<close>

type_synonym addr = nat

datatype pyval = PNone | PBool bool | PInt int | PStr string | PRef addr

type_synonym pydict = "string \<rightharpoonup> pyval"

type_synonym heap = "pydict list"


text \<open>\<open>d.get(key, default)\<close>, \<open>d[key]\<close> and \<open>key in d\<close>.\<close>

definition dict_get :: "pydict \<Rightarrow> string \<Rightarrow> pyval \<Rightarrow> pyval" where
  "dict_get d key dflt = (case d key of None \<Rightarrow> dflt | Some v \<Rightarrow> v)"






text \<open>The model classes; all of them derive from \<open>KaitenObject\<close>.\<close>

datatype kclass = KaitenObject | Space | Board | Column | Lane | Card | Tag | Comment
  | Member | File | Property | Checklist | ChecklistItem

text \<open>
  An instance holds its class, the reference \<open>_data\<close> and the cached \<open>_id\<close>. The source
  annotates the id as \<open>Optional[int]\<close>: \<open>as_id\<close> reads a dictionary value at that type
  (\<open>bool\<close> is a subclass of \<open>int\<close> in Python); an id of another type is outside this model
  and is read as \<open>None\<close>.
\<close>

record kaiten_object =
  obj_class :: kclass
  obj_data :: addr
  obj_id :: "int option"

fun as_id :: "pyval \<Rightarrow> int option" where
  "as_id (PInt n) = Some n"
| "as_id (PBool b) = Some (if b then 1 else 0)"
| "as_id v = None"

definition KaitenObject_init :: "kclass \<Rightarrow> heap \<Rightarrow> addr \<Rightarrow> kaiten_object" where
  "KaitenObject_init cls h data =
     \<lparr>obj_class = cls, obj_data = data, obj_id = as_id (dict_get (h ! data) ''id'' PNone)\<rparr>"

text \<open>
  The property \<open>id\<close>: \<open>Checklist\<close> and \<open>ChecklistItem\<close> override it and read the
  dictionary; the other classes return the cached \<open>_id\<close>.
\<close>

definition kobj_id :: "heap \<Rightarrow> kaiten_object \<Rightarrow> int option" where
  "kobj_id h obj =
     (if obj_class obj = Checklist \<or> obj_class obj = ChecklistItem
      then as_id (dict_get (h ! obj_data obj) ''id'' PNone)
      else obj_id obj)"






text \<open>
  \<open>__eq__\<close> and \<open>__hash__\<close>. The other operand is a \<open>KaitenObject\<close> (of any class) or
  some other value. \<open>hash\<close> of the pair (class, id) is Python's tuple hash, a function
  of the pair, taken as a parameter.
\<close>

datatype operand = IsKaitenObject kaiten_object | NotKaitenObject pyval

fun kobj_eq :: "heap \<Rightarrow> kaiten_object \<Rightarrow> operand \<Rightarrow> bool" where
  "kobj_eq h self (NotKaitenObject v) = False"
| "kobj_eq h self (IsKaitenObject other) =
     (kobj_id h self = kobj_id h other \<and> obj_class self = obj_class other)"

definition kobj_hash :: "(kclass \<times> int option \<Rightarrow> int) \<Rightarrow> heap \<Rightarrow> kaiten_object \<Rightarrow> int" where
  "kobj_hash tuple_hash h self = tuple_hash (obj_class self, kobj_id h self)"

section \<open>exceptions.py\<close>

datatype exn_class = KaitenApiError | KaitenNotFoundError | KaitenValidationError
  | KaitenAuthenticationError | KaitenPermissionError | KaitenRateLimitError
  | KaitenServerError | KaitenConnectionError | KaitenTimeoutError

text \<open>Every class of exceptions.py derives from \<open>KaitenApiError\<close> directly.\<close>

definition subclass_of :: "exn_class \<Rightarrow> exn_class \<Rightarrow> bool" where
  "subclass_of c base = (c = base \<or> base = KaitenApiError)"

text \<open>
  Decoded JSON, as \<open>response.json()\<close> returns it: \<open>None\<close>, booleans, numbers, strings,
  lists and dictionaries (as association lists, looked up with \<open>map_of\<close>).
\<close>

datatype json = JNull | JBool bool | JInt int | JFloat rat | JStr string
  | JList "json list" | JObj "(string \<times> json) list"

text \<open>
  The messages are f-strings; each constructor is one of them, with the values that are
  formatted into it:
  \<open>Rate limit exceeded after {retries} retries\<close>, \<open>Resource not found: {endpoint}\<close>,
  \<open>Validation error: {error_data}\<close>, \<open>API error {response.status}: {error_data}\<close> and
  \<open>HTTP client error after {retries} retries: {e}\<close>.
\<close>

datatype message = RateLimitExceededAfter nat | ResourceNotFound string
  | ValidationErrorMsg json | ApiErrorMsg nat string | ClientErrorAfter nat string

record kaiten_error =
  exn_class :: exn_class
  message :: message
  status_code :: "nat option"

definition KaitenApiError_init :: "message \<Rightarrow> kaiten_error" where
  "KaitenApiError_init msg = \<lparr>exn_class = KaitenApiError, message = msg, status_code = None\<rparr>"

definition KaitenNotFoundError_init :: "message \<Rightarrow> kaiten_error" where
  "KaitenNotFoundError_init msg =
     \<lparr>exn_class = KaitenNotFoundError, message = msg, status_code = Some 404\<rparr>"

definition KaitenValidationError_init :: "message \<Rightarrow> kaiten_error" where
  "KaitenValidationError_init msg =
     \<lparr>exn_class = KaitenValidationError, message = msg, status_code = Some 422\<rparr>"

text \<open>\<open>isinstance(e, cls)\<close> for a raised exception.\<close>

definition isinstance :: "kaiten_error \<Rightarrow> exn_class \<Rightarrow> bool" where
  "isinstance e cls = subclass_of (exn_class e) cls"

section \<open>kaiten\_client.py: the request pipeline\<close>

text \<open>
  What \<open>_request\<close> can raise: an exception of exceptions.py, the \<open>RuntimeError\<close> for a
  missing session, the \<open>ValueError\<close> of \<open>min\<close> on an empty list, the \<open>ValueError\<close> of
  \<open>get_base_url\<close>, or an exception of the transport that is not an
  \<open>aiohttp.ClientError\<close> and passes through (named by its text).
\<close>

datatype failure = Kaiten kaiten_error | RuntimeError | MinOfEmpty
  | ConfigError value_error | Propagated string

subsection \<open>The environment\<close>

text \<open>
  Reading a body (\<open>await response.json()\<close>, \<open>await response.text()\<close>) gives the decoded
  value, or raises an \<open>aiohttp.ClientError\<close> (a wrong content type, a broken payload), or
  raises something else (a JSON syntax error).
\<close>

datatype 'a body_read = Decoded 'a | ReadClientError string | ReadOtherError string

record response =
  status :: nat
  retry_after :: "string option"
  json_body :: "json body_read"
  text_body :: "string body_read"

text \<open>
  One transport attempt (\<open>session.request\<close>) gives a response, raises an
  \<open>aiohttp.ClientError\<close>, or raises something else.
\<close>

datatype transport = Responded response | RaisedClientError string | RaisedOther string

text \<open>
  The environment of a call: Python's \<open>float()\<close> on a string (\<open>None\<close> for
  \<open>ValueError\<close>; the finite values only, as exact rationals), \<open>str()\<close> on a parameter
  value, and what the transport does at each attempt (numbered from 1). Keyword arguments
  of \<open>_request\<close> (the JSON body) go to the transport unchanged and are left out.
\<close>

record 'v env =
  py_float :: "string \<Rightarrow> rat option"
  py_str :: "'v \<Rightarrow> string"
  transport :: "nat \<Rightarrow> transport"

text \<open>
  The settings \<open>_request\<close> reads from \<open>KaitenConfig\<close>: \<open>MAX_RETRIES\<close> (its local
  \<open>retries\<close>), \<open>RETRY_DELAY\<close> (its local \<open>delay\<close>) and \<open>LIMIT_PER_SEC\<close>.
\<close>

record config =
  retries :: nat
  delay :: rat
  limit_per_sec :: nat

definition KaitenConfig :: config where
  "KaitenConfig = \<lparr>retries = MAX_RETRIES, delay = RETRY_DELAY,
                    limit_per_sec = LIMIT_PER_SEC\<rparr>"

subsection \<open>State and effects\<close>

text \<open>
  The effects of a call, in order: a completed \<open>asyncio.sleep\<close>, a transport attempt
  (method and URL), a timestamp appended to \<open>_request_times\<close>, and \<open>_request_times\<close>
  reset to the empty list.
\<close>

datatype event = Slept rat | Sent string string | Acquired rat | Cleared

text \<open>
  The client's fields that \<open>_request\<close> reads and writes, the event loop's clock, and the
  effects so far. In a run of one call alone the clock moves with the sleeps only.
\<close>

record state =
  is_initialized :: bool
  session :: bool
  request_times :: "rat list"
  clock :: rat
  trace :: "event list"

definition initialize :: "state \<Rightarrow> state" where
  "initialize s = (if \<not> is_initialized s then s\<lparr>session := True, is_initialized := True\<rparr> else s)"

definition close :: "state \<Rightarrow> state" where
  "close s = (if session s \<and> is_initialized s then s\<lparr>session := False, is_initialized := False\<rparr>
              else s)"

definition sleep :: "rat \<Rightarrow> state \<Rightarrow> state" where
  "sleep d s = s\<lparr>clock := clock s + max d 0, trace := trace s @ [Slept d]\<rparr>"

subsection \<open>The rate limiter (lines 122 to 137)\<close>

definition prune :: "rat \<Rightarrow> rat list \<Rightarrow> rat list" where
  "prune now window = filter (\<lambda>t. now - t < 1) window"

text \<open>
  The \<open>while\<close> loop. At its head \<open>now\<close> is the clock's value: it was read just before,
  with no suspension in between.
\<close>

function wait_loop :: "nat \<Rightarrow> state \<Rightarrow> failure + state" where
  "wait_loop limit s =
     (if length (request_times s) \<ge> limit then
        (if request_times s = [] then Inl MinOfEmpty
         else
           let oldest_request_time = min_list (request_times s);
               sleep_time = 1 - (clock s - oldest_request_time);
               s1 = (if sleep_time > 0 then sleep sleep_time s else s);
               s2 = s1\<lparr>request_times := prune (clock s1) (request_times s1)\<rparr>
           in wait_loop limit s2)
      else Inr s)"
  by pat_completeness auto
termination
proof (relation "measure (\<lambda>(limit, s). length (request_times s))")
  show "wf (measure (\<lambda>(limit, s). length (request_times s)))" by simp
next
  fix limit :: nat and s :: state and oldest sleep_time s1 s2
  assume ne: "request_times s \<noteq> []"
    and o: "oldest = min_list (request_times s)"
    and st: "sleep_time = 1 - (clock s - oldest)"
    and s1: "s1 = (if 0 < sleep_time then sleep sleep_time s else s)"
    and s2: "s2 = s1\<lparr>request_times := prune (clock s1) (request_times s1)\<rparr>"
  have mem: "oldest \<in> set (request_times s)"
    using ne o by (simp add: min_list_Min)
  have same: "request_times s1 = request_times s"
    using s1 by (simp add: sleep_def)
  have "\<not> (clock s1 - oldest < 1)"
    using s1 st by (auto simp: sleep_def)
  with mem have "length (prune (clock s1) (request_times s)) < length (request_times s)"
    unfolding prune_def by (intro length_filter_less) auto
  then show "((limit, s2), (limit, s)) \<in> measure (\<lambda>(limit, s). length (request_times s))"
    using s2 same by simp
qed

definition acquire_slot :: "nat \<Rightarrow> state \<Rightarrow> failure + state" where
  "acquire_slot limit s =
     (let s0 = s\<lparr>request_times := prune (clock s) (request_times s)\<rparr>
      in case wait_loop limit s0 of
           Inl e \<Rightarrow> Inl e
         | Inr s1 \<Rightarrow> Inr (s1\<lparr>request_times := request_times s1 @ [clock s1],
                               trace := trace s1 @ [Acquired (clock s1)]\<rparr>))"

subsection \<open>The query string (lines 143 to 145)\<close>

fun add_params :: "('v \<Rightarrow> string) \<Rightarrow> string \<Rightarrow> (string \<times> 'v) list \<Rightarrow> string" where
  "add_params str url [] = url"
| "add_params str url ((key, val) # params) =
     add_params str
       (url @ (if contains ''?'' url then ''&'' else ''?'') @ key @ ''='' @ str val) params"

definition build_url :: "('v \<Rightarrow> string) \<Rightarrow> string \<Rightarrow> string \<Rightarrow> (string \<times> 'v) list
    \<Rightarrow> value_error + string" where
  "build_url str domain endpoint params =
     (case get_base_url domain of
        Inl e \<Rightarrow> Inl e
      | Inr base \<Rightarrow> Inr (add_params str (base @ endpoint) params))"

subsection \<open>One attempt (lines 148 to 188)\<close>

text \<open>
  What one attempt comes to: the call returns a payload, the call raises, the 429 branch
  is taken with its delay, or an \<open>aiohttp.ClientError\<close> reaches the \<open>except\<close> clause.
\<close>

datatype verdict = Return json | Raise failure | RateLimited rat | ClientFailed string

definition parse_retry_after :: "(string \<Rightarrow> rat option) \<Rightarrow> string option \<Rightarrow> rat" where
  "parse_retry_after float hdr =
     (let retry_after = (case hdr of None \<Rightarrow> ''1'' | Some v \<Rightarrow> v)
      in case float retry_after of None \<Rightarrow> 1 | Some retry_delay \<Rightarrow> retry_delay)"

definition handle_response :: "(string \<Rightarrow> rat option) \<Rightarrow> string \<Rightarrow> response \<Rightarrow> verdict" where
  "handle_response float endpoint r =
     (if status r = 429 then RateLimited (parse_retry_after float (retry_after r))
      else if status r = 404 then
        Raise (Kaiten (KaitenNotFoundError_init (ResourceNotFound endpoint)))
      else if status r = 422 then
        (case json_body r of
           Decoded error_data \<Rightarrow>
             Raise (Kaiten (KaitenValidationError_init (ValidationErrorMsg error_data)))
         | ReadClientError e \<Rightarrow> ClientFailed e
         | ReadOtherError x \<Rightarrow> Raise (Propagated x))
      else if status r \<ge> 400 then
        (case text_body r of
           Decoded error_data \<Rightarrow>
             Raise (Kaiten (KaitenApiError_init (ApiErrorMsg (status r) error_data)))
         | ReadClientError e \<Rightarrow> ClientFailed e
         | ReadOtherError x \<Rightarrow> Raise (Propagated x))
      else if status r = 204 then Return JNull
      else
        (case json_body r of
           Decoded payload \<Rightarrow> Return payload
         | ReadClientError e \<Rightarrow> ClientFailed e
         | ReadOtherError x \<Rightarrow> Raise (Propagated x)))"

definition attempt_verdict :: "(string \<Rightarrow> rat option) \<Rightarrow> string \<Rightarrow> transport \<Rightarrow> verdict" where
  "attempt_verdict float endpoint t =
     (case t of
        Responded r \<Rightarrow> handle_response float endpoint r
      | RaisedClientError e \<Rightarrow> ClientFailed e
      | RaisedOther x \<Rightarrow> Raise (Propagated x))"

subsection \<open>The retry loop and the whole call\<close>

text \<open>
  \<open>for attempt in range(1, retries + 1)\<close>. A loop that runs out without returning or
  raising falls off the end of the function, which returns \<open>None\<close>.
\<close>

function attempt_loop :: "'v env \<Rightarrow> config \<Rightarrow> string \<Rightarrow> string \<Rightarrow> string \<Rightarrow> nat \<Rightarrow> state
    \<Rightarrow> (failure + json) \<times> state" where
  "attempt_loop env cfg method endpoint url attempt s =
     (if attempt > retries cfg then (Inr JNull, s)
      else
        let s1 = s\<lparr>trace := trace s @ [Sent method url]\<rparr>
        in case attempt_verdict (py_float env) endpoint (transport env attempt) of
             Return payload \<Rightarrow> (Inr payload, s1)
           | Raise e \<Rightarrow> (Inl e, s1)
           | RateLimited retry_delay \<Rightarrow>
               let s2 = sleep retry_delay s1;
                   s3 = s2\<lparr>request_times := [], trace := trace s2 @ [Cleared]\<rparr>
               in if attempt < retries cfg
                  then attempt_loop env cfg method endpoint url (attempt + 1) s3
                  else (Inl (Kaiten (KaitenApiError_init
                               (RateLimitExceededAfter (retries cfg)))), s3)
           | ClientFailed e \<Rightarrow>
               if attempt < retries cfg
               then attempt_loop env cfg method endpoint url (attempt + 1)
                      (sleep (delay cfg) s1)
               else (Inl (Kaiten (KaitenApiError_init
                            (ClientErrorAfter (retries cfg) e))), s1))"
  by pat_completeness auto
termination
  by (relation "measure (\<lambda>(env, cfg, method, endpoint, url, attempt, s).
        retries cfg + 1 - attempt)") auto

definition request :: "'v env \<Rightarrow> config \<Rightarrow> string \<Rightarrow> string \<Rightarrow> string \<Rightarrow> (string \<times> 'v) list
    \<Rightarrow> state \<Rightarrow> (failure + json) \<times> state" where
  "request env cfg domain method endpoint params s =
     (let s0 = (if \<not> is_initialized s then initialize s else s)
      in if \<not> session s0 then (Inl RuntimeError, s0)
         else case acquire_slot (limit_per_sec cfg) s0 of
                Inl e \<Rightarrow> (Inl e, s0)
              | Inr s1 \<Rightarrow>
                  (case build_url (py_str env) domain endpoint params of
                     Inl e \<Rightarrow> (Inl (ConfigError e), s1)
                   | Inr url \<Rightarrow> attempt_loop env cfg method endpoint url 1 s1))"

declare wait_loop.simps [simp del]

declare attempt_loop.simps [simp del]

subsection \<open>Reading the effects\<close>

fun is_sent :: "event \<Rightarrow> bool" where
  "is_sent (Sent method url) = True"
| "is_sent e = False"

fun is_acquired :: "event \<Rightarrow> bool" where
  "is_acquired (Acquired t) = True"
| "is_acquired e = False"

text \<open>The number of transport attempts and of recorded timestamps in a trace.\<close>

definition attempts_made :: "event list \<Rightarrow> nat" where
  "attempts_made tr = length (filter is_sent tr)"

definition acquisitions :: "event list \<Rightarrow> nat" where
  "acquisitions tr = length (filter is_acquired tr)"

subsection \<open>Two operations of the facade\<close>




definition ENDPOINT_CARDS :: string where
  "ENDPOINT_CARDS = ''/cards''"


text \<open>
  \<open>get_cards\<close> (lines 383 to 385), from the parameters it has collected. Line 384 is
  \<open>response if isinstance(response, list) else response.get('items', [])\<close>: a payload that
  is neither a list nor a dictionary has no \<open>get\<close>. Line 385 is
  \<open>[Card(self, card_data) for card_data in cards_data]\<close>: it iterates \<open>cards_data\<close> (the
  elements of a list, the keys of a dictionary, the characters of a string; anything else
  is not iterable) and builds a \<open>Card\<close> from each element, where
  \<open>KaitenObject.__init__\<close> keeps the data and reads \<open>data.get('id')\<close>, which only a
  dictionary has. The association list of a \<open>JObj\<close> stands for a dictionary, so its keys
  are distinct.
\<close>

datatype builtin_error = AttributeError | TypeError

definition unwrap_items :: "json \<Rightarrow> builtin_error + json" where
  "unwrap_items response =
     (case response of
        JList xs \<Rightarrow> Inr (JList xs)
      | JObj kvs \<Rightarrow> Inr (case map_of kvs ''items'' of None \<Rightarrow> JList [] | Some v \<Rightarrow> v)
      | _ \<Rightarrow> Inl AttributeError)"

text \<open>A domain object built from a decoded payload: its class, \<open>_data\<close> and \<open>_id\<close>.\<close>

record wrapped_object =
  wrapped_class :: kclass
  wrapped_data :: "(string \<times> json) list"
  wrapped_id :: json

definition wrap :: "kclass \<Rightarrow> json \<Rightarrow> builtin_error + wrapped_object" where
  "wrap cls data =
     (case data of
        JObj kvs \<Rightarrow>
          Inr \<lparr>wrapped_class = cls, wrapped_data = kvs,
               wrapped_id = (case map_of kvs ''id'' of None \<Rightarrow> JNull | Some v \<Rightarrow> v)\<rparr>
      | _ \<Rightarrow> Inl AttributeError)"

definition iterate :: "json \<Rightarrow> builtin_error + json list" where
  "iterate v =
     (case v of
        JList xs \<Rightarrow> Inr xs
      | JObj kvs \<Rightarrow> Inr (map (\<lambda>kv. JStr (fst kv)) kvs)
      | JStr s \<Rightarrow> Inr (map (\<lambda>c. JStr [c]) s)
      | _ \<Rightarrow> Inl TypeError)"

fun wrap_each :: "kclass \<Rightarrow> json list \<Rightarrow> builtin_error + wrapped_object list" where
  "wrap_each cls [] = Inr []"
| "wrap_each cls (data # rest) =
     (case wrap cls data of
        Inl e \<Rightarrow> Inl e
      | Inr obj \<Rightarrow> (case wrap_each cls rest of Inl e \<Rightarrow> Inl e | Inr objs \<Rightarrow> Inr (obj # objs)))"

definition wrap_cards :: "json \<Rightarrow> builtin_error + wrapped_object list" where
  "wrap_cards cards_data =
     (case iterate cards_data of Inl e \<Rightarrow> Inl e | Inr elements \<Rightarrow> wrap_each Card elements)"

definition get_cards :: "'v env \<Rightarrow> config \<Rightarrow> string \<Rightarrow> (string \<times> 'v) list \<Rightarrow> state
    \<Rightarrow> (failure + builtin_error + wrapped_object list) \<times> state" where
  "get_cards env cfg domain params s =
     (case request env cfg domain ''GET'' ENDPOINT_CARDS params s of
        (Inl e, s') \<Rightarrow> (Inl e, s')
      | (Inr response, s') \<Rightarrow>
          (case unwrap_items response of
             Inl e \<Rightarrow> (Inr (Inl e), s')
           | Inr cards_data \<Rightarrow> (Inr (wrap_cards cards_data), s')))"

text \<open>
  An attempt after which the loop goes on to the next one, if any is left: the 429 branch
  or an \<open>aiohttp.ClientError\<close>. The endpoint plays no part in that.
\<close>

definition retried :: "(string \<Rightarrow> rat option) \<Rightarrow> transport \<Rightarrow> bool" where
  "retried float t =
     (case attempt_verdict float [] t of
        RateLimited d \<Rightarrow> True
      | ClientFailed e \<Rightarrow> True
      | _ \<Rightarrow> False)"

subsection \<open>The query string as the specification words it\<close>

text \<open>
  Each parameter as \<open>key=value\<close>, the first after \<open>?\<close>, every later one after \<open>&\<close>.
\<close>

definition key_value :: "('v \<Rightarrow> string) \<Rightarrow> string \<times> 'v \<Rightarrow> string" where
  "key_value str p = fst p @ ''='' @ str (snd p)"

definition spec_query :: "('v \<Rightarrow> string) \<Rightarrow> (string \<times> 'v) list \<Rightarrow> string" where
  "spec_query str params =
     (case params of
        [] \<Rightarrow> []
      | p # ps \<Rightarrow> ''?'' @ key_value str p @ concat (map (\<lambda>q. ''&'' @ key_value str q) ps))"

subsection \<open>Example environments\<close>

text \<open>\<open>str()\<close> on a value that is \<open>None\<close> or a string.\<close>

definition str_of_optional :: "string option \<Rightarrow> string" where
  "str_of_optional v = (case v of None \<Rightarrow> ''None'' | Some s \<Rightarrow> s)"

text \<open>\<open>float()\<close> on the two strings the examples use; any other string is taken as unparseable.\<close>

definition float_example :: "string \<Rightarrow> rat option" where
  "float_example x = (if x = ''1'' then Some 1 else if x = ''2.5'' then Some (5 / 2) else None)"

text \<open>A transport that refuses every connection, one that answers 429 without a
  \<open>Retry-After\<close> header every time, and one that answers 404 every time.\<close>

definition refusing :: "nat \<Rightarrow> transport" where
  "refusing attempt = RaisedClientError ''refused''"

definition answering :: "nat \<Rightarrow> nat \<Rightarrow> transport" where
  "answering code attempt =
     Responded \<lparr>status = code, retry_after = None, json_body = Decoded JNull,
                text_body = Decoded ''''\<rparr>"

definition example_env :: "(nat \<Rightarrow> transport) \<Rightarrow> string env" where
  "example_env t = \<lparr>py_float = float_example, py_str = id, transport = t\<rparr>"

text \<open>A client that has just been constructed, at time 0.\<close>

definition fresh_client :: state where
  "fresh_client = \<lparr>is_initialized = False, session = False, request_times = [], clock = 0,
                    trace = []\<rparr>"

text \<open>A transport that answers 200 with the given JSON body every time.\<close>

definition answering_json :: "json \<Rightarrow> nat \<Rightarrow> transport" where
  "answering_json body attempt =
     Responded \<lparr>status = 200, retry_after = None, json_body = Decoded body,
                text_body = Decoded ''''\<rparr>"

text \<open>A transport that refuses the first connection and behaves as the given one afterwards.\<close>

definition refused_then :: "(nat \<Rightarrow> transport) \<Rightarrow> nat \<Rightarrow> transport" where
  "refused_then t attempt = (if attempt = 1 then RaisedClientError ''refused'' else t attempt)"

section \<open>Concurrent calls on one client\<close>

text \<open>
  The calls of one client run as tasks of one event loop: a task runs alone from one
  suspension point to the next. \<open>_request\<close> suspends in the rate limiter's
  \<open>asyncio.sleep\<close>, in \<open>session.request\<close> (until the response or the error is there),
  and in the \<open>asyncio.sleep\<close> of the 429 branch and of the \<open>except\<close> clause. A task is at
  one of these points, has not started, or has finished. A sleeping task carries the time
  at which its sleep is over; a task in flight or backing off carries its attempt number.
\<close>

datatype pc = NotStarted | LimiterSleeping rat | InFlight nat | Backoff429 nat rat
  | BackoffError nat rat | Finished "failure + json"

text \<open>
  The client is initialized. \<open>window\<close> is the shared list \<open>_request_times\<close>; each task
  has its endpoint and its place in \<open>_request\<close>. Two lists are kept for the statements
  only: \<open>admitted\<close> holds every timestamp ever appended to the window, \<open>since_clear\<close>
  those appended since the window was last reset by the 429 branch.
\<close>

record system =
  loop_time :: rat
  window :: "rat list"
  tasks :: "(string \<times> pc) list"
  admitted :: "rat list"
  since_clear :: "rat list"

text \<open>
  The rate limiter from the head of its \<open>while\<close> loop to the next suspension, on a
  window that has just been pruned: the task is admitted, or goes to sleep for
  \<open>sleep_time\<close>, or \<open>min\<close> fails on an empty list (a limit of 0). When \<open>sleep_time\<close> is
  not positive the loop reads the clock and prunes again without suspending.
\<close>

datatype limiter_outcome = Admit "rat list" | Suspend rat "rat list" | MinFails "rat list"

function limiter_block :: "nat \<Rightarrow> rat \<Rightarrow> rat list \<Rightarrow> limiter_outcome" where
  "limiter_block limit now ts =
     (if length ts \<ge> limit then
        (if ts = [] then MinFails ts
         else
           let oldest_request_time = min_list ts;
               sleep_time = 1 - (now - oldest_request_time)
           in if sleep_time > 0 then Suspend sleep_time ts
              else limiter_block limit now (prune now ts))
      else Admit ts)"
  by pat_completeness auto
termination
proof (relation "measure (\<lambda>(limit, now, ts). length ts)")
  show "wf (measure (\<lambda>(limit, now, ts). length ts))" by simp
next
  fix limit :: nat and now :: rat and ts :: "rat list" and oldest sleep_time
  assume ne: "ts \<noteq> []" and o: "oldest = min_list ts"
    and st: "sleep_time = 1 - (now - oldest)" and le: "\<not> 0 < sleep_time"
  have "oldest \<in> set ts" using ne o by (simp add: min_list_Min)
  moreover have "\<not> (now - oldest < 1)" using st le by simp
  ultimately have "length (prune now ts) < length ts"
    unfolding prune_def by (intro length_filter_less) auto
  then show "((limit, now, prune now ts), (limit, now, ts))
               \<in> measure (\<lambda>(limit, now, ts). length ts)"
    by simp
qed

declare limiter_block.simps [simp del]

text \<open>
  Lines 123 to 137 for task \<open>i\<close>, entered at the start of the call or after the limiter's
  sleep: read the clock, prune, run the loop; on admission append the timestamp and send
  the first attempt (with no attempts configured the call returns \<open>None\<close>).
\<close>

definition run_limiter :: "config \<Rightarrow> nat \<Rightarrow> system \<Rightarrow> system" where
  "run_limiter cfg i s =
     (let now = loop_time s; endpoint = fst (tasks s ! i)
      in case limiter_block (limit_per_sec cfg) now (prune now (window s)) of
           MinFails ts \<Rightarrow>
             s\<lparr>window := ts, tasks := (tasks s)[i := (endpoint, Finished (Inl MinOfEmpty))]\<rparr>
         | Suspend sleep_time ts \<Rightarrow>
             s\<lparr>window := ts,
               tasks := (tasks s)[i := (endpoint, LimiterSleeping (now + sleep_time))]\<rparr>
         | Admit ts \<Rightarrow>
             s\<lparr>window := ts @ [now],
               tasks := (tasks s)[i := (endpoint, if 1 \<le> retries cfg then InFlight 1
                                                  else Finished (Inr JNull))],
               admitted := admitted s @ [now],
               since_clear := since_clear s @ [now]\<rparr>)"

text \<open>
  What the event loop and the network can do: let time pass, start a task, resume a task
  whose sleep is over, deliver the outcome of the attempt a task has in flight.
\<close>

datatype action = Tick rat | Start nat | Wake nat | Answer nat transport

text \<open>What a task in flight at attempt \<open>k\<close> does with the outcome of the attempt.\<close>

definition on_answer :: "(string \<Rightarrow> rat option) \<Rightarrow> config \<Rightarrow> rat \<Rightarrow> string \<Rightarrow> nat \<Rightarrow> transport \<Rightarrow> pc" where
  "on_answer float cfg now endpoint k t =
     (case attempt_verdict float endpoint t of
        Return payload \<Rightarrow> Finished (Inr payload)
      | Raise e \<Rightarrow> Finished (Inl e)
      | RateLimited retry_delay_429 \<Rightarrow> Backoff429 k (now + max retry_delay_429 0)
      | ClientFailed e \<Rightarrow>
          if k < retries cfg then BackoffError k (now + max (delay cfg) 0)
          else Finished (Inl (Kaiten (KaitenApiError_init (ClientErrorAfter (retries cfg) e)))))"

text \<open>One step; \<open>None\<close> when the action is not possible in the state.\<close>

fun step :: "(string \<Rightarrow> rat option) \<Rightarrow> config \<Rightarrow> system \<Rightarrow> action \<Rightarrow> system option" where
  "step float cfg s (Tick d) = (if 0 \<le> d then Some (s\<lparr>loop_time := loop_time s + d\<rparr>) else None)"
| "step float cfg s (Start i) =
     (if i < length (tasks s) \<and> snd (tasks s ! i) = NotStarted
      then Some (run_limiter cfg i s) else None)"
| "step float cfg s (Wake i) =
     (if i < length (tasks s) then
        (case snd (tasks s ! i) of
           LimiterSleeping wake_at \<Rightarrow>
             if wake_at \<le> loop_time s then Some (run_limiter cfg i s) else None
         | Backoff429 k wake_at \<Rightarrow>
             if wake_at \<le> loop_time s
             then Some (s\<lparr>window := [],
                         tasks := (tasks s)[i := (fst (tasks s ! i),
                           if k < retries cfg then InFlight (k + 1)
                           else Finished (Inl (Kaiten (KaitenApiError_init
                                  (RateLimitExceededAfter (retries cfg))))))],
                         since_clear := []\<rparr>)
             else None
         | BackoffError k wake_at \<Rightarrow>
             if wake_at \<le> loop_time s
             then Some (s\<lparr>tasks := (tasks s)[i := (fst (tasks s ! i), InFlight (k + 1))]\<rparr>)
             else None
         | _ \<Rightarrow> None)
      else None)"
| "step float cfg s (Answer i t) =
     (if i < length (tasks s) then
        (case snd (tasks s ! i) of
           InFlight k \<Rightarrow>
             Some (s\<lparr>tasks := (tasks s)[i := (fst (tasks s ! i),
                       on_answer float cfg (loop_time s) (fst (tasks s ! i)) k t)]\<rparr>)
         | _ \<Rightarrow> None)
      else None)"

fun run :: "(string \<Rightarrow> rat option) \<Rightarrow> config \<Rightarrow> system \<Rightarrow> action list \<Rightarrow> system option" where
  "run float cfg s [] = Some s"
| "run float cfg s (a # as) =
     (case step float cfg s a of None \<Rightarrow> None | Some s' \<Rightarrow> run float cfg s' as)"

text \<open>A client at time \<open>t0\<close> with an empty window and one task per endpoint, none started.\<close>

definition initial :: "rat \<Rightarrow> string list \<Rightarrow> system" where
  "initial t0 endpoints =
     \<lparr>loop_time = t0, window = [], tasks = map (\<lambda>e. (e, NotStarted)) endpoints,
      admitted = [], since_clear = []\<rparr>"

text \<open>
  The timestamps of a list that fall within the trailing 1-second window that ends at
  \<open>T\<close>: those with \<open>T - 1 < t \<le> T\<close>, as the limiter keeps those with \<open>now - t < 1\<close>.
\<close>

definition starts_within :: "rat \<Rightarrow> rat list \<Rightarrow> nat" where
  "starts_within T ts = length (filter (\<lambda>t. T - 1 < t \<and> t \<le> T) ts)"

text \<open>An action that delivers a response with status 429.\<close>

fun is_429 :: "action \<Rightarrow> bool" where
  "is_429 (Answer i (Responded r)) = (status r = 429)"
| "is_429 a = False"

fun in_backoff_429 :: "pc \<Rightarrow> bool" where
  "in_backoff_429 (Backoff429 k wake_at) = True"
| "in_backoff_429 p = False"

text \<open>
  The invariant of the window, for the limit \<open>L\<close>: no timestamp recorded since the last
  reset lies in the future; the window and the timestamps recorded since the last reset
  agree on the timestamps less than 1.0 old; the window holds at most \<open>L\<close> timestamps; no
  trailing 1-second window holds more than \<open>L\<close> of the timestamps recorded since the last
  reset.
\<close>

definition window_inv :: "nat \<Rightarrow> system \<Rightarrow> bool" where
  "window_inv L s \<longleftrightarrow>
     (\<forall>t \<in> set (since_clear s). t \<le> loop_time s) \<and>
     prune (loop_time s) (window s) = prune (loop_time s) (since_clear s) \<and>
     length (window s) \<le> L \<and>
     (\<forall>T. starts_within T (since_clear s) \<le> L)"

text \<open>No task is in the 429 branch and the window has never been reset.\<close>

definition never_cleared :: "system \<Rightarrow> bool" where
  "never_cleared s \<longleftrightarrow>
     (\<forall>p \<in> set (tasks s). \<not> in_backoff_429 (snd p)) \<and> since_clear s = admitted s"

section \<open>Facts about the string operations\<close>

lemma strip_Nil: "strip [] = []"
  by (simp add: strip_def rstrip_def lstrip_def)

lemma rstrip_idem: "rstrip (rstrip s) = rstrip s"
  by (simp add: rstrip_def)

lemma strip_empty_iff: "strip s = [] \<longleftrightarrow> list_all is_space s"
  unfolding strip_def rstrip_def lstrip_def
  apply (simp add: list_all_iff)
  by (metis dropWhile_append3 in_set_conv_decomp_last set_dropWhileD)

lemma dropWhile_rev_dropWhile:
  "xs = [] \<or> \<not> P (hd xs) \<Longrightarrow> dropWhile P (rev (dropWhile P (rev xs))) = rev (dropWhile P (rev xs))"
  by (metis Nil_is_rev_conv dropWhile_eq_self_iff dropWhile_last hd_rev
    last_in_set last_rev)

lemma lstrip_strip: "lstrip (strip s) = strip s"
  unfolding strip_def rstrip_def lstrip_def
  by (rule dropWhile_rev_dropWhile) (metis hd_dropWhile)

lemma strip_idem: "strip (strip s) = strip s"
  by (metis lstrip_strip rstrip_idem strip_def)

lemma replace_absent: "\<not> contains old s \<Longrightarrow> replace old new s = s"
  by (induction s) auto

lemma prefix_contains: "prefix sub s \<Longrightarrow> contains sub s"
  by (cases s) auto

lemma normalize_leading:
  assumes "strip domain = p @ r" "p \<in> {[], ''http://'', ''https://''}"
    "\<not> contains ''http://'' r" "\<not> contains ''https://'' r"
  shows "normalize_domain domain = spec_normalize_domain domain"
proof -
  have r1: "replace ''https://'' [] r = r" and r2: "replace ''http://'' [] r = r"
    using assms replace_absent by auto
  have n1: "\<not> prefix ''https://'' r" and n2: "\<not> prefix ''http://'' r"
    using assms prefix_contains by auto
  from assms(2) consider "p = []" | "p = ''http://''" | "p = ''https://''" by auto
  then show ?thesis
  proof cases
    case 1
    then show ?thesis using assms(1) r1 r2 n1 n2
      by (simp add: normalize_domain_def spec_normalize_domain_def strip_prefix_def)
  next
    case 2
    then show ?thesis using assms(1) r1 r2 n1 n2
      by (simp add: normalize_domain_def spec_normalize_domain_def strip_prefix_def)
  next
    case 3
    then show ?thesis using assms(1) r1 r2 n1 n2
      by (simp add: normalize_domain_def spec_normalize_domain_def strip_prefix_def)
  qed
qed

section \<open>Base URL and credentials (config.py)\<close>

lemmas str_eval = get_base_url_def normalize_domain_def strip_def lstrip_def rstrip_def is_space_def
  rstrip_chars_def endswith_def API_VERSION_def

text \<open>
  Claim C6, as the code has it. \<open>get_base_url\<close> raises \<open>ValueError\<close> for an empty
  domain. Otherwise the result is \<open>https://d/api/v1\<close>, where \<open>d\<close> ends with
  \<open>.kaiten.ru\<close> and is the normalized domain itself exactly when that already ends with the
  suffix, and the normalized domain followed by the suffix exactly when it does not. The
  normalized domain is the trimmed input with every occurrence of \<open>https://\<close> deleted, then
  every occurrence of \<open>http://\<close> deleted, wherever they stand, and trailing slashes removed.
  When the trimmed input is an optional leading protocol followed by a rest that contains
  neither protocol string, the result is the one the specification describes
  (\<open>spec_base_url\<close>, which strips leading prefixes only).
\<close>

theorem get_base_url_replaces_everywhere:
  "(domain = [] \<longrightarrow> get_base_url domain = Inl DomainEmpty) \<and>
   (domain \<noteq> [] \<longrightarrow>
      (\<exists>d. get_base_url domain = Inr (''https://'' @ d @ ''/api/'' @ API_VERSION) \<and>
           endswith d ''.kaiten.ru'' \<and>
           (d = normalize_domain domain \<longleftrightarrow> endswith (normalize_domain domain) ''.kaiten.ru'') \<and>
           (d = normalize_domain domain @ ''.kaiten.ru''
              \<longleftrightarrow> \<not> endswith (normalize_domain domain) ''.kaiten.ru''))) \<and>
   (domain \<noteq> [] \<and> strip domain = p @ r \<and> p \<in> {[], ''http://'', ''https://''} \<and>
      \<not> contains ''http://'' r \<and> \<not> contains ''https://'' r
      \<longrightarrow> get_base_url domain = Inr (spec_base_url domain))"
proof (intro conjI impI)
  show "get_base_url domain = Inl DomainEmpty" if "domain = []"
    using that by (simp add: get_base_url_def)
next
  assume ne: "domain \<noteq> []"
  let ?n = "normalize_domain domain"
  show "\<exists>d. get_base_url domain = Inr (''https://'' @ d @ ''/api/'' @ API_VERSION) \<and>
           endswith d ''.kaiten.ru'' \<and>
           (d = ?n \<longleftrightarrow> endswith ?n ''.kaiten.ru'') \<and>
           (d = ?n @ ''.kaiten.ru'' \<longleftrightarrow> \<not> endswith ?n ''.kaiten.ru'')"
  proof (cases "endswith ?n ''.kaiten.ru''")
    case True
    then show ?thesis using ne
      by (intro exI[of _ ?n]) (simp add: get_base_url_def)
  next
    case False
    then show ?thesis using ne
      by (intro exI[of _ "?n @ ''.kaiten.ru''"]) (auto simp add: get_base_url_def endswith_def)
  qed
next
  assume "domain \<noteq> [] \<and> strip domain = p @ r \<and> p \<in> {[], ''http://'', ''https://''} \<and>
      \<not> contains ''http://'' r \<and> \<not> contains ''https://'' r"
  then show "get_base_url domain = Inr (spec_base_url domain)"
    using normalize_leading[of domain p r]
    by (simp add: get_base_url_def spec_base_url_def Let_def)
qed

text \<open>
  Witness for C6: the domain \<open>" https://acme/ "\<close> has the leading protocol \<open>https://\<close> and
  the rest \<open>acme/\<close>.
\<close>

theorem get_base_url_witness:
  "get_base_url '' https://acme/ '' = Inr ''https://acme.kaiten.ru/api/v1'' \<and>
   get_base_url '' https://acme/ '' = Inr (spec_base_url '' https://acme/ '')"
  using get_base_url_replaces_everywhere[of "'' https://acme/ ''" "''https://''" "''acme/''"]
  by (simp add: str_eval spec_base_url_def spec_normalize_domain_def strip_prefix_def)

text \<open>
  Counterexample to C6 as stated: in \<open>ahttp://b\<close> the protocol string is not a leading
  prefix, so stripping leading prefixes leaves it alone, while the code deletes it.
\<close>

theorem get_base_url_counterexample:
  "get_base_url ''ahttp://b'' = Inr ''https://ab.kaiten.ru/api/v1'' \<and>
   spec_base_url ''ahttp://b'' = ''https://ahttp://b.kaiten.ru/api/v1'' \<and>
   get_base_url ''ahttp://b'' \<noteq> Inr (spec_base_url ''ahttp://b'')"
  by (simp add: str_eval spec_base_url_def spec_normalize_domain_def strip_prefix_def)

text \<open>
  Claim C8. Constructing credentials with an empty or whitespace-only domain raises the
  \<open>ValueError\<close> for the domain; with a proper domain and an empty or whitespace-only token
  it raises the \<open>ValueError\<close> for the token. Credentials that were constructed store the
  trimmed domain and token, and both are non-empty, also after trimming again.
\<close>

theorem credentials_validated:
  "(list_all is_space domain \<longrightarrow> KaitenCredentials_init domain token = Inl DomainRequired) \<and>
   (\<not> list_all is_space domain \<and> list_all is_space token
      \<longrightarrow> KaitenCredentials_init domain token = Inl TokenRequired) \<and>
   (\<forall>c. KaitenCredentials_init domain token = Inr c \<longrightarrow>
      cred_domain c = strip domain \<and> cred_token c = strip token \<and>
      cred_domain c \<noteq> [] \<and> cred_token c \<noteq> [] \<and>
      strip (cred_domain c) \<noteq> [] \<and> strip (cred_token c) \<noteq> [])"
  by (auto simp add: KaitenCredentials_init_def strip_empty_iff[symmetric] strip_idem strip_Nil split: if_splits)

text \<open>Witness for C8: one rejected domain, one rejected token, one accepted pair.\<close>

theorem credentials_validated_witness:
  "KaitenCredentials_init ''  '' ''tok'' = Inl DomainRequired \<and>
   KaitenCredentials_init ''acme'' [] = Inl TokenRequired \<and>
   KaitenCredentials_init '' acme '' '' tok '' = Inr \<lparr>cred_domain = ''acme'', cred_token = ''tok''\<rparr> \<and>
   strip ''acme'' \<noteq> [] \<and> strip ''tok'' \<noteq> []"
  using credentials_validated[of "''  ''" "''tok''"] credentials_validated[of "''acme''" "[]"]
    credentials_validated[of "'' acme ''" "'' tok ''"]
  by (simp add: KaitenCredentials_init_def strip_def lstrip_def rstrip_def is_space_def)

section \<open>Domain objects (models/base.py)\<close>







text \<open>
  Claim C10. Two instances are equal exactly when they have the same class and the same
  id, whatever else their data holds; equal instances have equal hashes; an instance is
  never equal to a value that is not a \<open>KaitenObject\<close>; equality is reflexive and
  symmetric.
\<close>

theorem equality_by_class_and_id:
  "(kobj_eq h a (IsKaitenObject b) \<longleftrightarrow> obj_class a = obj_class b \<and> kobj_id h a = kobj_id h b) \<and>
   (kobj_eq h a (IsKaitenObject b) \<longrightarrow> kobj_hash tuple_hash h a = kobj_hash tuple_hash h b) \<and>
   \<not> kobj_eq h a (NotKaitenObject v) \<and>
   kobj_eq h a (IsKaitenObject a) \<and>
   (kobj_eq h a (IsKaitenObject b) \<longleftrightarrow> kobj_eq h b (IsKaitenObject a))"
  by (auto simp: kobj_hash_def)

text \<open>
  Witness for C10: two cards with id 7 whose dictionaries differ in the title are equal
  and have the same hash.
\<close>

theorem equality_by_class_and_id_witness:
  "kobj_eq [[''id'' \<mapsto> PInt 7, ''title'' \<mapsto> PStr ''A''], [''id'' \<mapsto> PInt 7, ''title'' \<mapsto> PStr ''B'']]
     (KaitenObject_init Card
        [[''id'' \<mapsto> PInt 7, ''title'' \<mapsto> PStr ''A''], [''id'' \<mapsto> PInt 7, ''title'' \<mapsto> PStr ''B'']] 0)
     (IsKaitenObject (KaitenObject_init Card
        [[''id'' \<mapsto> PInt 7, ''title'' \<mapsto> PStr ''A''], [''id'' \<mapsto> PInt 7, ''title'' \<mapsto> PStr ''B'']] 1)) \<and>
   kobj_hash (\<lambda>(c, i). case i of None \<Rightarrow> 0 | Some n \<Rightarrow> n)
     [[''id'' \<mapsto> PInt 7, ''title'' \<mapsto> PStr ''A''], [''id'' \<mapsto> PInt 7, ''title'' \<mapsto> PStr ''B'']]
     (KaitenObject_init Card
        [[''id'' \<mapsto> PInt 7, ''title'' \<mapsto> PStr ''A''], [''id'' \<mapsto> PInt 7, ''title'' \<mapsto> PStr ''B'']] 0)
   = kobj_hash (\<lambda>(c, i). case i of None \<Rightarrow> 0 | Some n \<Rightarrow> n)
     [[''id'' \<mapsto> PInt 7, ''title'' \<mapsto> PStr ''A''], [''id'' \<mapsto> PInt 7, ''title'' \<mapsto> PStr ''B'']]
     (KaitenObject_init Card
        [[''id'' \<mapsto> PInt 7, ''title'' \<mapsto> PStr ''A''], [''id'' \<mapsto> PInt 7, ''title'' \<mapsto> PStr ''B'']] 1)"
  using equality_by_class_and_id[of
      "[[''id'' \<mapsto> PInt 7, ''title'' \<mapsto> PStr ''A''], [''id'' \<mapsto> PInt 7, ''title'' \<mapsto> PStr ''B'']]"
      "KaitenObject_init Card
        [[''id'' \<mapsto> PInt 7, ''title'' \<mapsto> PStr ''A''], [''id'' \<mapsto> PInt 7, ''title'' \<mapsto> PStr ''B'']] 0"
      "KaitenObject_init Card
        [[''id'' \<mapsto> PInt 7, ''title'' \<mapsto> PStr ''A''], [''id'' \<mapsto> PInt 7, ''title'' \<mapsto> PStr ''B'']] 1"
      "\<lambda>(c, i). case i of None \<Rightarrow> 0 | Some n \<Rightarrow> n"]
  by (simp add: KaitenObject_init_def kobj_id_def dict_get_def)

section \<open>The query string (kaiten\_client.py, lines 143 to 145)\<close>

lemma contains_single: "contains [c] s \<longleftrightarrow> c \<in> set s"
  by (induction s) auto

lemma add_params_after_mark:
  "contains ''?'' url \<Longrightarrow>
   add_params str url params = url @ concat (map (\<lambda>q. ''&'' @ key_value str q) params)"
proof (induction params arbitrary: url)
  case Nil
  then show ?case by simp
next
  case (Cons p params)
  obtain k v where p: "p = (k, v)" by (cases p)
  have "contains ''?'' (url @ ''&'' @ k @ ''='' @ str v)"
    using Cons.prems by (simp add: contains_single)
  from Cons.IH[OF this] show ?case
    using Cons.prems p by (simp add: key_value_def)
qed

lemma add_params_no_mark:
  "\<not> contains ''?'' url \<Longrightarrow> add_params str url params = url @ spec_query str params"
proof (cases params)
  case Nil
  then show ?thesis by (simp add: spec_query_def)
next
  case (Cons p ps)
  assume no: "\<not> contains ''?'' url"
  obtain k v where p: "p = (k, v)" by (cases p)
  have "contains ''?'' (url @ ''?'' @ k @ ''='' @ str v)"
    by (simp add: contains_single)
  from add_params_after_mark[OF this, of str ps] show ?thesis
    using no Cons p by (simp add: spec_query_def key_value_def)
qed

text \<open>
  Claim C7, as the code has it. Every entry of the parameters map, whatever its value, is
  appended as \<open>key=str(value)\<close> with nothing encoded. When the base URL followed by the
  endpoint holds no \<open>?\<close>, the first parameter comes after \<open>?\<close> and every later one after
  \<open>&\<close>; when it already holds a \<open>?\<close>, every parameter, the first too, comes after
  \<open>&\<close>.
\<close>

theorem query_string_literal:
  assumes "get_base_url domain = Inr base"
  shows "(\<not> contains ''?'' (base @ endpoint) \<longrightarrow>
            build_url str domain endpoint params
              = Inr (base @ endpoint @ spec_query str params)) \<and>
         (contains ''?'' (base @ endpoint) \<longrightarrow>
            build_url str domain endpoint params
              = Inr (base @ endpoint @ concat (map (\<lambda>q. ''&'' @ key_value str q) params)))"
  using assms add_params_no_mark[of "base @ endpoint" str params]
    add_params_after_mark[of "base @ endpoint" str params]
  by (simp add: build_url_def)

text \<open>
  Witness for C7: three parameters on \<open>/cards\<close>; the space and the \<open>&\<close> inside a value
  stay as they are, and a \<open>None\<close> value is written \<open>None\<close>.
\<close>

theorem query_string_literal_witness:
  "build_url str_of_optional ''api'' ''/cards''
     [(''limit'', Some ''10''), (''query'', Some ''a b&c''), (''tag'', None)]
   = Inr ''https://api.kaiten.ru/api/v1/cards?limit=10&query=a b&c&tag=None''"
  using query_string_literal[of "''api''" "''https://api.kaiten.ru/api/v1''" "''/cards''"
      str_of_optional "[(''limit'', Some ''10''), (''query'', Some ''a b&c''), (''tag'', None)]"]
  by (simp add: str_eval spec_query_def key_value_def str_of_optional_def)

text \<open>
  Counterexample to C7 as stated: on the endpoint \<open>/cards?x=1\<close> the first appended
  parameter comes after \<open>&\<close>, not after \<open>?\<close>.
\<close>

theorem query_string_counterexample:
  "build_url id ''api'' ''/cards?x=1'' [(''a'', ''1'')]
     = Inr ''https://api.kaiten.ru/api/v1/cards?x=1&a=1'' \<and>
   build_url id ''api'' ''/cards?x=1'' [(''a'', ''1'')]
     \<noteq> Inr (''https://api.kaiten.ru/api/v1'' @ ''/cards?x=1'' @ spec_query id [(''a'', ''1'')])"
  by (simp add: build_url_def str_eval spec_query_def key_value_def)

section \<open>The request pipeline (kaiten\_client.py, lines 113 to 188)\<close>

text \<open>
  The rate limiter's loop ends whenever the limit is positive, and touches neither the
  session nor the counts of attempts and recorded timestamps.
\<close>

lemma wait_loop_ok:
  "0 < limit \<Longrightarrow>
   \<exists>s'. wait_loop limit s = Inr s' \<and> is_initialized s' = is_initialized s \<and>
        session s' = session s \<and>
        attempts_made (trace s') = attempts_made (trace s) \<and>
        acquisitions (trace s') = acquisitions (trace s) \<and>
        length (request_times s') < limit"
proof (induction limit s rule: wait_loop.induct)
  case (1 limit s)
  show ?case
  proof (cases "limit \<le> length (request_times s)")
    case False
    then show ?thesis by (subst wait_loop.simps) simp
  next
    case True
    with 1(2) have ne: "request_times s \<noteq> []" by auto
    define s1 where "s1 = (if 0 < 1 - (clock s - min_list (request_times s))
                           then sleep (1 - (clock s - min_list (request_times s))) s else s)"
    define s2 where "s2 = s1\<lparr>request_times := prune (clock s1) (request_times s1)\<rparr>"
    have step: "wait_loop limit s = wait_loop limit s2"
      using True ne by (subst wait_loop.simps) (simp add: s1_def s2_def Let_def)
    have IH: "\<exists>s'. wait_loop limit s2 = Inr s' \<and> is_initialized s' = is_initialized s2 \<and>
        session s' = session s2 \<and>
        attempts_made (trace s') = attempts_made (trace s2) \<and>
        acquisitions (trace s') = acquisitions (trace s2) \<and>
        length (request_times s') < limit"
      using 1(1)[OF True ne refl refl s1_def s2_def 1(2)] .
    have "is_initialized s2 = is_initialized s" "session s2 = session s"
      "attempts_made (trace s2) = attempts_made (trace s)"
      "acquisitions (trace s2) = acquisitions (trace s)"
      by (auto simp: s2_def s1_def sleep_def attempts_made_def acquisitions_def)
    with IH step show ?thesis by auto
  qed
qed

lemma acquire_slot_ok:
  assumes "0 < limit"
  shows "\<exists>s1. acquire_slot limit s = Inr s1 \<and> is_initialized s1 = is_initialized s \<and>
        session s1 = session s \<and>
        attempts_made (trace s1) = attempts_made (trace s) \<and>
        acquisitions (trace s1) = acquisitions (trace s) + 1 \<and>
        length (request_times s1) \<le> limit \<and> request_times s1 \<noteq> []"
proof -
  let ?s0 = "s\<lparr>request_times := prune (clock s) (request_times s)\<rparr>"
  from wait_loop_ok[OF assms, of ?s0] obtain s' where
    w: "wait_loop limit ?s0 = Inr s'" and
    p: "is_initialized s' = is_initialized ?s0" "session s' = session ?s0"
       "attempts_made (trace s') = attempts_made (trace ?s0)"
       "acquisitions (trace s') = acquisitions (trace ?s0)"
       "length (request_times s') < limit"
    by blast
  show ?thesis
    using w p by (simp add: acquire_slot_def attempts_made_def acquisitions_def)
qed

lemma request_unfold:
  assumes "is_initialized s \<longrightarrow> session s" and "0 < limit_per_sec cfg"
    and "get_base_url domain = Inr base"
  shows "\<exists>s1. acquire_slot (limit_per_sec cfg) (initialize s) = Inr s1 \<and>
           request env cfg domain http_method endpoint params s
             = attempt_loop env cfg http_method endpoint
                 (add_params (py_str env) (base @ endpoint) params) 1 s1 \<and>
           attempts_made (trace s1) = attempts_made (trace s) \<and>
           acquisitions (trace s1) = acquisitions (trace s) + 1"
proof -
  have ses: "session (initialize s)" using assms(1) by (auto simp: initialize_def)
  have tr: "trace (initialize s) = trace s" by (simp add: initialize_def)
  from acquire_slot_ok[OF assms(2), of "initialize s"] obtain s1 where
    a: "acquire_slot (limit_per_sec cfg) (initialize s) = Inr s1" and
    p: "attempts_made (trace s1) = attempts_made (trace (initialize s))"
       "acquisitions (trace s1) = acquisitions (trace (initialize s)) + 1"
    by blast
  have ini: "(if \<not> is_initialized s then initialize s else s) = initialize s"
    by (simp add: initialize_def)
  have "request env cfg domain http_method endpoint params s
          = attempt_loop env cfg http_method endpoint
              (add_params (py_str env) (base @ endpoint) params) 1 s1"
    unfolding request_def ini Let_def using ses a assms(3) by (simp add: build_url_def)
  with a p tr show ?thesis by auto
qed

text \<open>One pass through the loop body, by the verdict of the attempt.\<close>

lemma attempt_return:
  "attempt \<le> retries cfg \<Longrightarrow>
   attempt_verdict (py_float env) endpoint (transport env attempt) = Return payload \<Longrightarrow>
   attempt_loop env cfg http_method endpoint url attempt s
     = (Inr payload, s\<lparr>trace := trace s @ [Sent http_method url]\<rparr>)"
  by (subst attempt_loop.simps) simp


lemma attempt_client_failed_retry:
  "attempt < retries cfg \<Longrightarrow>
   attempt_verdict (py_float env) endpoint (transport env attempt) = ClientFailed e \<Longrightarrow>
   attempt_loop env cfg http_method endpoint url attempt s
     = attempt_loop env cfg http_method endpoint url (attempt + 1)
         (sleep (delay cfg) (s\<lparr>trace := trace s @ [Sent http_method url]\<rparr>))"
  by (subst attempt_loop.simps) simp

lemma attempt_client_failed_last:
  "attempt = retries cfg \<Longrightarrow>
   attempt_verdict (py_float env) endpoint (transport env attempt) = ClientFailed e \<Longrightarrow>
   attempt_loop env cfg http_method endpoint url attempt s
     = (Inl (Kaiten (KaitenApiError_init (ClientErrorAfter (retries cfg) e))),
        s\<lparr>trace := trace s @ [Sent http_method url]\<rparr>)"
  by (subst attempt_loop.simps) simp

lemma attempt_rate_limited_retry:
  "attempt < retries cfg \<Longrightarrow>
   attempt_verdict (py_float env) endpoint (transport env attempt) = RateLimited d \<Longrightarrow>
   attempt_loop env cfg http_method endpoint url attempt s
     = attempt_loop env cfg http_method endpoint url (attempt + 1)
         (s\<lparr>clock := clock s + max d 0, request_times := [],
            trace := trace s @ [Sent http_method url, Slept d, Cleared]\<rparr>)"
  by (subst attempt_loop.simps) (simp add: sleep_def)

lemma attempt_rate_limited_last:
  "attempt = retries cfg \<Longrightarrow>
   attempt_verdict (py_float env) endpoint (transport env attempt) = RateLimited d \<Longrightarrow>
   attempt_loop env cfg http_method endpoint url attempt s
     = (Inl (Kaiten (KaitenApiError_init (RateLimitExceededAfter (retries cfg)))),
        s\<lparr>clock := clock s + max d 0, request_times := [],
          trace := trace s @ [Sent http_method url, Slept d, Cleared]\<rparr>)"
  by (subst attempt_loop.simps) (simp add: sleep_def)

lemmas run_eval = request_def acquire_slot_def wait_loop.simps attempt_loop.simps initialize_def
  build_url_def attempt_verdict_def handle_response_def parse_retry_after_def sleep_def prune_def
  KaitenConfig_def MAX_RETRIES_def RETRY_DELAY_def LIMIT_PER_SEC_def
  KaitenApiError_init_def KaitenNotFoundError_init_def KaitenValidationError_init_def
  example_env_def float_example_def fresh_client_def

text \<open>
  Claim C2, as the code has it. With the default settings, when each of the three
  transport attempts raises an \<open>aiohttp.ClientError\<close>, the call makes exactly three
  attempts, sleeps the base delay 1.0 after the first and after the second, and raises
  \<open>KaitenApiError\<close> (the base class, not \<open>KaitenConnectionError\<close>) whose message carries
  the text of the last error. The rate limiter is acquired once, before the first attempt:
  the call records one timestamp, not one per attempt.
\<close>

theorem three_transport_errors:
  assumes "is_initialized s \<longrightarrow> session s"
    and "get_base_url domain = Inr base"
    and "transport env 1 = RaisedClientError e1"
    and "transport env 2 = RaisedClientError e2"
    and "transport env 3 = RaisedClientError e3"
  shows "\<exists>s1 s'. acquire_slot LIMIT_PER_SEC (initialize s) = Inr s1 \<and>
           request env KaitenConfig domain http_method endpoint params s
             = (Inl (Kaiten (KaitenApiError_init (ClientErrorAfter 3 e3))), s') \<and>
           trace s' = trace s1 @
             [Sent http_method (add_params (py_str env) (base @ endpoint) params), Slept 1,
              Sent http_method (add_params (py_str env) (base @ endpoint) params), Slept 1,
              Sent http_method (add_params (py_str env) (base @ endpoint) params)] \<and>
           attempts_made (trace s') = attempts_made (trace s) + 3 \<and>
           acquisitions (trace s') = acquisitions (trace s) + 1 \<and>
           exn_class (KaitenApiError_init (ClientErrorAfter 3 e3)) = KaitenApiError \<and>
           \<not> isinstance (KaitenApiError_init (ClientErrorAfter 3 e3)) KaitenConnectionError"
proof -
  let ?url = "add_params (py_str env) (base @ endpoint) params"
  let ?cfg = "KaitenConfig"
  have lim: "0 < limit_per_sec ?cfg" and r: "retries ?cfg = 3" and d: "delay ?cfg = 1"
    by (simp_all add: KaitenConfig_def LIMIT_PER_SEC_def MAX_RETRIES_def RETRY_DELAY_def)
  from request_unfold[OF assms(1) lim assms(2), of env http_method endpoint params]
  obtain s1 where a: "acquire_slot (limit_per_sec ?cfg) (initialize s) = Inr s1"
    and req: "request env ?cfg domain http_method endpoint params s
                = attempt_loop env ?cfg http_method endpoint ?url 1 s1"
    and cnt: "attempts_made (trace s1) = attempts_made (trace s)"
       "acquisitions (trace s1) = acquisitions (trace s) + 1"
    by blast
  have v: "attempt_verdict (py_float env) endpoint (transport env 1) = ClientFailed e1"
    "attempt_verdict (py_float env) endpoint (transport env 2) = ClientFailed e2"
    "attempt_verdict (py_float env) endpoint (transport env 3) = ClientFailed e3"
    using assms by (simp_all add: attempt_verdict_def)
  define s2 where "s2 = sleep 1 (s1\<lparr>trace := trace s1 @ [Sent http_method ?url]\<rparr>)"
  define s3 where "s3 = sleep 1 (s2\<lparr>trace := trace s2 @ [Sent http_method ?url]\<rparr>)"
  define s' where "s' = s3\<lparr>trace := trace s3 @ [Sent http_method ?url]\<rparr>"
  have "attempt_loop env ?cfg http_method endpoint ?url 1 s1
          = attempt_loop env ?cfg http_method endpoint ?url 2 s2"
    using attempt_client_failed_retry[of 1 ?cfg env endpoint e1 http_method ?url s1] v(1) r d
    by (simp add: s2_def numeral_2_eq_2)
  also have "\<dots> = attempt_loop env ?cfg http_method endpoint ?url 3 s3"
    using attempt_client_failed_retry[of 2 ?cfg env endpoint e2 http_method ?url s2] v(2) r d
    by (simp add: s3_def numeral_2_eq_2 numeral_3_eq_3)
  also have "\<dots> = (Inl (Kaiten (KaitenApiError_init (ClientErrorAfter 3 e3))), s')"
    using attempt_client_failed_last[of 3 ?cfg env endpoint e3 http_method ?url s3] v(3) r
    by (simp add: s'_def numeral_3_eq_3)
  finally have loop: "attempt_loop env ?cfg http_method endpoint ?url 1 s1
          = (Inl (Kaiten (KaitenApiError_init (ClientErrorAfter 3 e3))), s')" .
  have tr: "trace s' = trace s1 @ [Sent http_method ?url, Slept 1, Sent http_method ?url, Slept 1,
                                   Sent http_method ?url]"
    by (simp add: s'_def s3_def s2_def sleep_def)
  have "attempts_made (trace s') = attempts_made (trace s) + 3"
    "acquisitions (trace s') = acquisitions (trace s) + 1"
    using cnt unfolding tr by (simp_all add: attempts_made_def acquisitions_def)
  moreover have "limit_per_sec ?cfg = LIMIT_PER_SEC" by (simp add: KaitenConfig_def)
  ultimately show ?thesis
    using a req loop tr
    by (auto simp: KaitenApiError_init_def isinstance_def subclass_of_def)
qed

text \<open>Witness for C2: a new client on the domain \<open>api\<close> whose transport refuses every connection.\<close>

theorem three_transport_errors_witness:
  "request (example_env refusing) KaitenConfig ''api'' ''GET'' ''/cards'' [] fresh_client
     = (Inl (Kaiten (KaitenApiError_init (ClientErrorAfter 3 ''refused''))),
        \<lparr>is_initialized = True, session = True, request_times = [0], clock = 2,
         trace = [Acquired 0, Sent ''GET'' ''https://api.kaiten.ru/api/v1/cards'', Slept 1,
                  Sent ''GET'' ''https://api.kaiten.ru/api/v1/cards'', Slept 1,
                  Sent ''GET'' ''https://api.kaiten.ru/api/v1/cards'']\<rparr>)"
  using three_transport_errors[of fresh_client "''api''" "''https://api.kaiten.ru/api/v1''"
      "example_env refusing" "''refused''" "''refused''" "''refused''" "''GET''" "''/cards''" "[]"]
  by (simp add: run_eval str_eval refusing_def attempts_made_def acquisitions_def
      isinstance_def subclass_of_def)

text \<open>
  Counterexample to C2 as stated: in that run three attempts are made but one timestamp
  is recorded, and the exception is not an instance of \<open>KaitenConnectionError\<close>.
\<close>

theorem three_transport_errors_counterexample:
  "fst (request (example_env refusing) KaitenConfig ''api'' ''GET'' ''/cards'' [] fresh_client)
     = Inl (Kaiten \<lparr>exn_class = KaitenApiError, message = ClientErrorAfter 3 ''refused'',
                    status_code = None\<rparr>) \<and>
   \<not> isinstance \<lparr>exn_class = KaitenApiError, message = ClientErrorAfter 3 ''refused'',
                  status_code = None\<rparr> KaitenConnectionError \<and>
   attempts_made (trace (snd (request (example_env refusing) KaitenConfig ''api'' ''GET''
                                 ''/cards'' [] fresh_client))) = 3 \<and>
   acquisitions (trace (snd (request (example_env refusing) KaitenConfig ''api'' ''GET''
                                 ''/cards'' [] fresh_client))) = 1"
  by (simp add: run_eval str_eval refusing_def attempts_made_def acquisitions_def
      isinstance_def subclass_of_def)

text \<open>
  Claim C3, as the code has it. When an attempt receives HTTP 429, the call sleeps the
  delay \<open>d\<close> read from the \<open>Retry-After\<close> header: the parsed value when \<open>float\<close> accepts
  the header, 1.0 when it does not, and 1.0 when the header is absent (the default
  \<open>'1'\<close> is parsed). After the sleep \<open>_request_times\<close> is the empty list. If attempts
  remain, the next attempt starts from that state; if this was the last attempt, the call
  raises \<open>KaitenApiError\<close> (the base class, with no status code) with the message
  \<open>Rate limit exceeded after {retries} retries\<close>.
\<close>

theorem rate_limited_429:
  assumes "attempt \<le> retries cfg"
    and "transport env attempt = Responded r" and "status r = 429"
  shows "\<exists>d. d = parse_retry_after (py_float env) (retry_after r) \<and>
           (\<forall>v x. retry_after r = Some v \<and> py_float env v = Some x \<longrightarrow> d = x) \<and>
           (\<forall>v. retry_after r = Some v \<and> py_float env v = None \<longrightarrow> d = 1) \<and>
           (retry_after r = None \<and> py_float env ''1'' = Some 1 \<longrightarrow> d = 1) \<and>
           (attempt < retries cfg \<longrightarrow>
              attempt_loop env cfg http_method endpoint url attempt s
                = attempt_loop env cfg http_method endpoint url (attempt + 1)
                    (s\<lparr>clock := clock s + max d 0, request_times := [],
                       trace := trace s @ [Sent http_method url, Slept d, Cleared]\<rparr>)) \<and>
           (attempt = retries cfg \<longrightarrow>
              attempt_loop env cfg http_method endpoint url attempt s
                = (Inl (Kaiten \<lparr>exn_class = KaitenApiError,
                                 message = RateLimitExceededAfter (retries cfg),
                                 status_code = None\<rparr>),
                   s\<lparr>clock := clock s + max d 0, request_times := [],
                     trace := trace s @ [Sent http_method url, Slept d, Cleared]\<rparr>))"
proof -
  let ?d = "parse_retry_after (py_float env) (retry_after r)"
  have v: "attempt_verdict (py_float env) endpoint (transport env attempt) = RateLimited ?d"
    using assms by (simp add: attempt_verdict_def handle_response_def)
  have "attempt < retries cfg \<longrightarrow>
          attempt_loop env cfg http_method endpoint url attempt s
            = attempt_loop env cfg http_method endpoint url (attempt + 1)
                (s\<lparr>clock := clock s + max ?d 0, request_times := [],
                   trace := trace s @ [Sent http_method url, Slept ?d, Cleared]\<rparr>)"
    using attempt_rate_limited_retry[OF _ v] by blast
  moreover have "attempt = retries cfg \<longrightarrow>
          attempt_loop env cfg http_method endpoint url attempt s
            = (Inl (Kaiten \<lparr>exn_class = KaitenApiError,
                             message = RateLimitExceededAfter (retries cfg),
                             status_code = None\<rparr>),
               s\<lparr>clock := clock s + max ?d 0, request_times := [],
                 trace := trace s @ [Sent http_method url, Slept ?d, Cleared]\<rparr>)"
    using attempt_rate_limited_last[OF _ v] by (simp add: KaitenApiError_init_def)
  ultimately show ?thesis
    by (intro exI[of _ ?d]) (auto simp: parse_retry_after_def)
qed

text \<open>
  Witness for C3: a 429 without the header, as the last attempt and as the second of three;
  the sleep is 1 and the window is empty afterwards.
\<close>

theorem rate_limited_429_witness:
  "attempt_loop (example_env (answering 429)) KaitenConfig ''GET'' ''/cards'' ''u'' 3
     \<lparr>is_initialized = True, session = True, request_times = [0], clock = 0, trace = []\<rparr>
   = (Inl (Kaiten \<lparr>exn_class = KaitenApiError, message = RateLimitExceededAfter 3,
                   status_code = None\<rparr>),
      \<lparr>is_initialized = True, session = True, request_times = [], clock = 1,
       trace = [Sent ''GET'' ''u'', Slept 1, Cleared]\<rparr>) \<and>
   attempt_loop (example_env (answering 429)) KaitenConfig ''GET'' ''/cards'' ''u'' 2
     \<lparr>is_initialized = True, session = True, request_times = [0], clock = 0, trace = []\<rparr>
   = attempt_loop (example_env (answering 429)) KaitenConfig ''GET'' ''/cards'' ''u'' 3
      \<lparr>is_initialized = True, session = True, request_times = [], clock = 1,
       trace = [Sent ''GET'' ''u'', Slept 1, Cleared]\<rparr>"
  using rate_limited_429[of 3 KaitenConfig "example_env (answering 429)"
      "\<lparr>status = 429, retry_after = None, json_body = Decoded JNull, text_body = Decoded ''''\<rparr>"
      "''GET''" "''/cards''" "''u''"
      "\<lparr>is_initialized = True, session = True, request_times = [0], clock = 0, trace = []\<rparr>"]
    rate_limited_429[of 2 KaitenConfig "example_env (answering 429)"
      "\<lparr>status = 429, retry_after = None, json_body = Decoded JNull, text_body = Decoded ''''\<rparr>"
      "''GET''" "''/cards''" "''u''"
      "\<lparr>is_initialized = True, session = True, request_times = [0], clock = 0, trace = []\<rparr>"]
  by (simp add: KaitenConfig_def MAX_RETRIES_def example_env_def answering_def
      parse_retry_after_def float_example_def)

text \<open>
  Counterexample to C3 as stated: when every attempt is answered 429, the exception raised
  is not an instance of \<open>KaitenRateLimitError\<close>.
\<close>

theorem rate_limited_429_counterexample:
  "fst (request (example_env (answering 429)) KaitenConfig ''api'' ''GET'' ''/cards'' []
          fresh_client)
     = Inl (Kaiten \<lparr>exn_class = KaitenApiError, message = RateLimitExceededAfter 3,
                    status_code = None\<rparr>) \<and>
   \<not> isinstance \<lparr>exn_class = KaitenApiError, message = RateLimitExceededAfter 3,
                  status_code = None\<rparr> KaitenRateLimitError"
  by (simp add: run_eval str_eval answering_def isinstance_def subclass_of_def)



text \<open>
  The loop reaches attempt \<open>k\<close> when every attempt before it took the 429 branch or
  raised an \<open>aiohttp.ClientError\<close>.
\<close>

lemma retried_verdict:
  "retried float t \<Longrightarrow>
   (\<exists>d. attempt_verdict float endpoint t = RateLimited d) \<or>
   (\<exists>e. attempt_verdict float endpoint t = ClientFailed e)"
  by (cases t)
     (auto simp: retried_def attempt_verdict_def handle_response_def
       split: if_splits body_read.splits)

lemma reach_attempt:
  assumes "a \<le> k" and "k \<le> retries cfg"
    and "\<forall>j. a \<le> j \<and> j < k \<longrightarrow> retried (py_float env) (transport env j)"
  shows "\<exists>t'. attempt_loop env cfg http_method endpoint url a t
               = attempt_loop env cfg http_method endpoint url k t'"
  using assms
proof (induction "k - a" arbitrary: a t)
  case 0
  then have "a = k" by simp
  then show ?case by blast
next
  case (Suc n)
  then have lt: "a < k" and ar: "a < retries cfg" by auto
  with Suc.prems have "retried (py_float env) (transport env a)" by simp
  from retried_verdict[OF this, of endpoint]
  obtain t1 where one: "attempt_loop env cfg http_method endpoint url a t
                     = attempt_loop env cfg http_method endpoint url (a + 1) t1"
    using attempt_rate_limited_retry[OF ar, of env endpoint _ http_method url t]
      attempt_client_failed_retry[OF ar, of env endpoint _ http_method url t]
    by metis
  have "\<exists>t'. attempt_loop env cfg http_method endpoint url (a + 1) t1
               = attempt_loop env cfg http_method endpoint url k t'"
    using Suc.hyps(2) lt Suc.prems by (intro Suc.hyps(1)) auto
  with one show ?case by auto
qed

lemma wrap_each_objects:
  "wrap_each cls (map JObj kvss)
     = Inr (map (\<lambda>kvs. \<lparr>wrapped_class = cls, wrapped_data = kvs,
                          wrapped_id = (case map_of kvs ''id'' of None \<Rightarrow> JNull | Some v \<Rightarrow> v)\<rparr>) kvss)"
  by (induction kvss) (auto simp: wrap_def)

text \<open>
  Claim C5. Let attempt \<open>k\<close> be the one that gets a response, every attempt before it
  having been retried. Status 204 makes the call return \<open>None\<close>. A 2xx status other than
  204 with a JSON list as body makes the call return that list, and \<open>get_cards\<close> takes the
  list as its \<open>cards_data\<close>. A 2xx status other than 204 with a JSON object as body makes
  the call return the object, of which \<open>get_cards\<close> takes the value of \<open>items\<close>, or the
  empty list when the object has no \<open>items\<close>. \<open>get_cards\<close> then wraps the elements of
  \<open>cards_data\<close>: the empty list gives no cards, and a list of dictionaries gives one
  \<open>Card\<close> per dictionary, in order, each holding its dictionary unchanged.
\<close>

theorem response_classified:
  assumes "is_initialized s \<longrightarrow> session s" and "0 < limit_per_sec cfg"
    and "get_base_url domain = Inr base"
    and "1 \<le> k" and "k \<le> retries cfg"
    and "\<forall>j. 1 \<le> j \<and> j < k \<longrightarrow> retried (py_float env) (transport env j)"
    and "transport env k = Responded r"
  shows "(status r = 204 \<longrightarrow>
            fst (request env cfg domain http_method endpoint params s) = Inr JNull) \<and>
         (200 \<le> status r \<and> status r < 300 \<and> status r \<noteq> 204 \<and> json_body r = Decoded (JList xs) \<longrightarrow>
            fst (request env cfg domain http_method endpoint params s) = Inr (JList xs) \<and>
            unwrap_items (JList xs) = Inr (JList xs) \<and>
            fst (get_cards env cfg domain params s) = Inr (wrap_cards (JList xs))) \<and>
         (200 \<le> status r \<and> status r < 300 \<and> status r \<noteq> 204 \<and> json_body r = Decoded (JObj kvs) \<longrightarrow>
            fst (request env cfg domain http_method endpoint params s) = Inr (JObj kvs) \<and>
            unwrap_items (JObj kvs)
              = Inr (case map_of kvs ''items'' of None \<Rightarrow> JList [] | Some items \<Rightarrow> items) \<and>
            fst (get_cards env cfg domain params s)
              = Inr (wrap_cards (case map_of kvs ''items'' of None \<Rightarrow> JList []
                                 | Some items \<Rightarrow> items))) \<and>
         wrap_cards (JList []) = Inr [] \<and>
         wrap_cards (JList (map JObj dicts))
           = Inr (map (\<lambda>d. \<lparr>wrapped_class = Card, wrapped_data = d,
                              wrapped_id = (case map_of d ''id'' of None \<Rightarrow> JNull
                                            | Some v \<Rightarrow> v)\<rparr>) dicts)"
proof -
  have run: "fst (request env cfg domain m ep ps s) = Inr payload"
    if "attempt_verdict (py_float env) ep (transport env k) = Return payload" for m ep ps payload
  proof -
    from request_unfold[OF assms(1,2,3), of env m ep ps] obtain s1 where
      q: "request env cfg domain m ep ps s
            = attempt_loop env cfg m ep (add_params (py_str env) (base @ ep) ps) 1 s1"
      by blast
    from reach_attempt[OF assms(4,5,6), of m ep "add_params (py_str env) (base @ ep) ps" s1]
    obtain t' where
      "attempt_loop env cfg m ep (add_params (py_str env) (base @ ep) ps) 1 s1
         = attempt_loop env cfg m ep (add_params (py_str env) (base @ ep) ps) k t'"
      by blast
    with q attempt_return[OF assms(5) that] show ?thesis by simp
  qed
  have v204: "attempt_verdict (py_float env) ep (transport env k) = Return JNull"
    if "status r = 204" for ep
    using that assms(7) by (simp add: attempt_verdict_def handle_response_def)
  have vok: "attempt_verdict (py_float env) ep (transport env k) = Return payload"
    if "200 \<le> status r" "status r < 300" "status r \<noteq> 204" "json_body r = Decoded payload"
    for ep payload
    using that assms(7) by (simp add: attempt_verdict_def handle_response_def)
  have cards: "fst (get_cards env cfg domain params s)
                 = Inr (case unwrap_items payload of Inl e \<Rightarrow> Inl e
                        | Inr cards_data \<Rightarrow> wrap_cards cards_data)"
    if "fst (request env cfg domain ''GET'' ENDPOINT_CARDS params s) = Inr payload" for payload
    using that by (auto simp: get_cards_def split: prod.splits sum.splits)
  have w0: "wrap_cards (JList []) = Inr []"
    by (simp add: wrap_cards_def iterate_def)
  have w1: "wrap_cards (JList (map JObj dicts))
           = Inr (map (\<lambda>d. \<lparr>wrapped_class = Card, wrapped_data = d,
                              wrapped_id = (case map_of d ''id'' of None \<Rightarrow> JNull
                                            | Some v \<Rightarrow> v)\<rparr>) dicts)"
    by (simp add: wrap_cards_def iterate_def wrap_each_objects)
  show ?thesis
    using run[OF v204] run[OF vok] cards[OF run[OF vok]] w0 w1
    by (auto simp: unwrap_items_def)
qed

text \<open>
  Witness for C5: a 204 on the second attempt of a delete; \<open>get_cards\<close> on a list of two
  cards, on an envelope with \<open>items\<close> that arrives on the second attempt, and on an object
  without \<open>items\<close>.
\<close>

theorem response_classified_witness:
  "fst (request (example_env (refused_then (answering 204))) KaitenConfig ''api'' ''DELETE''
          ''/cards/1'' [] fresh_client) = Inr JNull \<and>
   fst (get_cards
          (example_env (answering_json (JList [JObj [(''id'', JInt 1)], JObj [(''id'', JInt 2)]])))
          KaitenConfig ''api'' [] fresh_client)
     = Inr (Inr [\<lparr>wrapped_class = Card, wrapped_data = [(''id'', JInt 1)], wrapped_id = JInt 1\<rparr>,
                 \<lparr>wrapped_class = Card, wrapped_data = [(''id'', JInt 2)], wrapped_id = JInt 2\<rparr>]) \<and>
   fst (get_cards
          (example_env (refused_then (answering_json
             (JObj [(''total'', JInt 1), (''items'', JList [JObj [(''id'', JInt 7)]])]))))
          KaitenConfig ''api'' [] fresh_client)
     = Inr (Inr [\<lparr>wrapped_class = Card, wrapped_data = [(''id'', JInt 7)], wrapped_id = JInt 7\<rparr>]) \<and>
   fst (get_cards (example_env (answering_json (JObj [(''total'', JInt 0)])))
          KaitenConfig ''api'' [] fresh_client) = Inr (Inr [])"
proof -
  have ini: "is_initialized fresh_client \<longrightarrow> session fresh_client"
    by (simp add: fresh_client_def)
  have lim: "0 < limit_per_sec KaitenConfig" and two: "2 \<le> retries KaitenConfig"
    and one: "1 \<le> retries KaitenConfig"
    by (simp_all add: KaitenConfig_def LIMIT_PER_SEC_def MAX_RETRIES_def)
  have url: "get_base_url ''api'' = Inr ''https://api.kaiten.ru/api/v1''"
    by (simp add: str_eval)
  have again: "\<forall>j. 1 \<le> j \<and> j < 2 \<longrightarrow>
                 retried (py_float (example_env (refused_then t)))
                   (transport (example_env (refused_then t)) j)" for t
    by (auto simp: example_env_def refused_then_def retried_def attempt_verdict_def)
  have first: "\<forall>j. 1 \<le> j \<and> j < (1::nat) \<longrightarrow>
                 retried (py_float (example_env t)) (transport (example_env t) j)" for t
    by simp
  have a: "fst (request (example_env (refused_then (answering 204))) KaitenConfig ''api''
                  ''DELETE'' ''/cards/1'' [] fresh_client) = Inr JNull"
    using response_classified[OF ini lim url _ two again[of "answering 204"],
        where r = "\<lparr>status = 204, retry_after = None, json_body = Decoded JNull,
                     text_body = Decoded ''''\<rparr>"
          and http_method = "''DELETE''" and endpoint = "''/cards/1''"
          and params = "[]"]
    by (simp add: example_env_def refused_then_def answering_def)
  have b: "fst (get_cards
          (example_env (answering_json (JList [JObj [(''id'', JInt 1)], JObj [(''id'', JInt 2)]])))
          KaitenConfig ''api'' [] fresh_client)
     = Inr (wrap_cards (JList [JObj [(''id'', JInt 1)], JObj [(''id'', JInt 2)]]))"
    using response_classified[OF ini lim url _ one first[of "answering_json (JList [JObj [(''id'', JInt 1)], JObj [(''id'', JInt 2)]])"],
        where r = "\<lparr>status = 200, retry_after = None,
                     json_body = Decoded (JList [JObj [(''id'', JInt 1)], JObj [(''id'', JInt 2)]]),
                     text_body = Decoded ''''\<rparr>"
          and xs = "[JObj [(''id'', JInt 1)], JObj [(''id'', JInt 2)]]" and params = "[]"]
    by (simp add: example_env_def answering_json_def)
  have c: "fst (get_cards
          (example_env (refused_then (answering_json
             (JObj [(''total'', JInt 1), (''items'', JList [JObj [(''id'', JInt 7)]])]))))
          KaitenConfig ''api'' [] fresh_client)
     = Inr (wrap_cards (JList [JObj [(''id'', JInt 7)]]))"
    using response_classified[OF ini lim url _ two again[of "answering_json
             (JObj [(''total'', JInt 1), (''items'', JList [JObj [(''id'', JInt 7)]])])"],
        where r = "\<lparr>status = 200, retry_after = None,
                     json_body = Decoded (JObj [(''total'', JInt 1),
                                                (''items'', JList [JObj [(''id'', JInt 7)]])]),
                     text_body = Decoded ''''\<rparr>"
          and kvs = "[(''total'', JInt 1), (''items'', JList [JObj [(''id'', JInt 7)]])]"
          and params = "[]"]
    by (simp add: example_env_def refused_then_def answering_json_def)
  have d: "fst (get_cards (example_env (answering_json (JObj [(''total'', JInt 0)])))
          KaitenConfig ''api'' [] fresh_client) = Inr (wrap_cards (JList []))"
    using response_classified[OF ini lim url _ one first[of "answering_json (JObj [(''total'', JInt 0)])"],
        where r = "\<lparr>status = 200, retry_after = None,
                     json_body = Decoded (JObj [(''total'', JInt 0)]),
                     text_body = Decoded ''''\<rparr>"
          and kvs = "[(''total'', JInt 0)]" and params = "[]"]
    by (simp add: example_env_def answering_json_def)
  show ?thesis
    using a b c d by (simp add: wrap_cards_def iterate_def wrap_def)
qed

section \<open>The rate window under concurrent calls\<close>

lemma limiter_block_window:
  "limiter_block limit now ts = out \<Longrightarrow>
   (case out of
      Admit ts' \<Rightarrow> (ts' = ts \<or> ts' = prune now ts) \<and> length ts' < limit
    | Suspend d ts' \<Rightarrow> (ts' = ts \<or> ts' = prune now ts)
    | MinFails ts' \<Rightarrow> (ts' = ts \<or> ts' = prune now ts))"
proof (induction limit now ts arbitrary: out rule: limiter_block.induct)
  case (1 limit now ts)
  show ?case
  proof (cases "limit \<le> length ts")
    case False
    with 1(2) show ?thesis by (subst (asm) limiter_block.simps) auto
  next
    case True
    show ?thesis
    proof (cases "ts = []")
      case True
      with \<open>limit \<le> length ts\<close> 1(2) show ?thesis
        by (subst (asm) limiter_block.simps) auto
    next
      case False
      show ?thesis
      proof (cases "0 < 1 - (now - min_list ts)")
        case True
        with False \<open>limit \<le> length ts\<close> 1(2) show ?thesis
          by (subst (asm) limiter_block.simps) (auto simp: Let_def)
      next
        case neg: False
        have rec: "limiter_block limit now (prune now ts) = out"
          using False neg \<open>limit \<le> length ts\<close> 1(2)
          by (subst (asm) limiter_block.simps) (auto simp: Let_def)
        have idem: "prune now (prune now ts) = prune now ts"
          by (simp add: prune_def)
        from 1(1)[OF \<open>limit \<le> length ts\<close> False refl refl neg rec]
        show ?thesis by (cases out) (auto simp: idem)
      qed
    qed
  qed
qed


lemma prune_prune_later:
  "c \<le> c' \<Longrightarrow> prune c' (prune c ts) = prune c' ts"
  unfolding prune_def by (induction ts) auto

lemma prune_length: "length (prune c ts) \<le> length ts"
  by (simp add: prune_def)

lemma starts_within_le_prune:
  assumes "\<forall>t \<in> set ts. t \<le> c" and "c \<le> T"
  shows "starts_within T ts \<le> length (prune c ts)"
proof -
  have "filter (\<lambda>t. T - 1 < t \<and> t \<le> T) ts
          = filter (\<lambda>t. T - 1 < t \<and> t \<le> T) (prune c ts)"
    unfolding prune_def using assms by (induction ts) auto
  then show ?thesis
    by (simp add: starts_within_def)
qed

lemma starts_within_append_old:
  "T < c \<Longrightarrow> starts_within T (ts @ [c]) = starts_within T ts"
  by (simp add: starts_within_def)

lemma starts_within_append_le:
  "starts_within T (ts @ [c]) \<le> starts_within T ts + 1"
  by (simp add: starts_within_def)

lemma run_limiter_inv:
  assumes "window_inv (limit_per_sec cfg) s"
  shows "window_inv (limit_per_sec cfg) (run_limiter cfg i s)"
proof -
  let ?L = "limit_per_sec cfg" and ?c = "loop_time s"
  let ?w = "prune ?c (window s)"
  from assms have old: "\<forall>t \<in> set (since_clear s). t \<le> ?c"
    and eq: "prune ?c (window s) = prune ?c (since_clear s)"
    and len: "length (window s) \<le> ?L"
    and bound: "\<forall>T. starts_within T (since_clear s) \<le> ?L"
    by (auto simp: window_inv_def)
  have pp: "prune ?c ?w = ?w" by (simp add: prune_def)
  have lw: "length ?w \<le> ?L" using len prune_length[of ?c "window s"] by simp
  show ?thesis
  proof (cases "limiter_block ?L ?c ?w")
    case (Admit ts)
    from limiter_block_window[OF this] have ts: "ts = ?w" and lt: "length ts < ?L"
      by (auto simp: pp)
    have new: "run_limiter cfg i s =
        s\<lparr>window := ts @ [?c],
          tasks := (tasks s)[i := (fst (tasks s ! i), if 1 \<le> retries cfg then InFlight 1
                                                       else Finished (Inr JNull))],
          admitted := admitted s @ [?c],
          since_clear := since_clear s @ [?c]\<rparr>"
      using Admit by (simp add: run_limiter_def Let_def)
    have b: "prune ?c (ts @ [?c]) = prune ?c (since_clear s @ [?c])"
      using ts eq pp by (simp add: prune_def)
    have d: "starts_within T (since_clear s @ [?c]) \<le> ?L" for T
    proof (cases "T < ?c")
      case True
      then show ?thesis using bound by (simp add: starts_within_append_old)
    next
      case False
      then have "starts_within T (since_clear s) \<le> length (prune ?c (since_clear s))"
        using old by (intro starts_within_le_prune) auto
      also have "\<dots> = length ts" using eq ts by simp
      finally have "starts_within T (since_clear s) < ?L" using lt by simp
      with starts_within_append_le[of T "since_clear s" ?c] show ?thesis by simp
    qed
    show ?thesis
      unfolding new window_inv_def using old b lt d by auto
  next
    case (Suspend sleep_time ts)
    from limiter_block_window[OF this] have ts: "ts = ?w" by (auto simp: pp)
    have new: "run_limiter cfg i s =
        s\<lparr>window := ts,
          tasks := (tasks s)[i := (fst (tasks s ! i), LimiterSleeping (?c + sleep_time))]\<rparr>"
      using Suspend by (simp add: run_limiter_def Let_def)
    show ?thesis
      unfolding new window_inv_def using old eq lw bound ts pp by auto
  next
    case (MinFails ts)
    from limiter_block_window[OF this] have ts: "ts = ?w" by (auto simp: pp)
    have new: "run_limiter cfg i s =
        s\<lparr>window := ts, tasks := (tasks s)[i := (fst (tasks s ! i), Finished (Inl MinOfEmpty))]\<rparr>"
      using MinFails by (simp add: run_limiter_def Let_def)
    show ?thesis
      unfolding new window_inv_def using old eq lw bound ts pp by auto
  qed
qed

lemma step_inv:
  assumes "window_inv (limit_per_sec cfg) s" and "step float cfg s a = Some s'"
  shows "window_inv (limit_per_sec cfg) s'"
proof (cases a)
  case (Tick d)
  with assms(2) have d: "0 \<le> d" and s': "s' = s\<lparr>loop_time := loop_time s + d\<rparr>"
    by (auto split: if_splits)
  from assms(1) have eq: "prune (loop_time s) (window s) = prune (loop_time s) (since_clear s)"
    by (simp add: window_inv_def)
  have "prune (loop_time s + d) (window s) = prune (loop_time s + d) (prune (loop_time s) (window s))"
    using d by (simp add: prune_prune_later)
  also have "\<dots> = prune (loop_time s + d) (since_clear s)"
    using d eq by (simp add: prune_prune_later)
  finally show ?thesis
    using assms(1) d unfolding s' window_inv_def by auto
next
  case (Start i)
  with assms show ?thesis by (auto split: if_splits intro: run_limiter_inv)
next
  case (Wake i)
  show ?thesis
  proof (cases "snd (tasks s ! i)")
    case (LimiterSleeping wake_at)
    with Wake assms(2) have "s' = run_limiter cfg i s" by (auto split: if_splits)
    with assms(1) show ?thesis by (simp add: run_limiter_inv)
  next
    case (Backoff429 k wake_at)
    with Wake assms show ?thesis
      by (auto split: if_splits simp: window_inv_def starts_within_def prune_def)
  next
    case (BackoffError k wake_at)
    with Wake assms show ?thesis
      by (auto split: if_splits simp: window_inv_def)
  qed (use Wake assms(2) in \<open>auto split: if_splits\<close>)
next
  case (Answer i t)
  with assms show ?thesis
    by (auto split: if_splits pc.splits simp: window_inv_def)
qed

lemma run_inv:
  "window_inv (limit_per_sec cfg) s \<Longrightarrow> run float cfg s acts = Some s' \<Longrightarrow>
   window_inv (limit_per_sec cfg) s'"
proof (induction acts arbitrary: s)
  case Nil
  then show ?case by simp
next
  case (Cons a acts)
  then show ?case by (auto split: option.splits dest: step_inv)
qed

lemma initial_inv: "window_inv L (initial t0 endpoints)"
  by (simp add: window_inv_def initial_def starts_within_def prune_def)

text \<open>While no attempt is answered 429, no task enters the 429 branch and the window is never reset.\<close>

lemma update_no_backoff:
  "(a, b) \<in> set (ts[i := (e, q)]) \<Longrightarrow> \<forall>p \<in> set ts. \<not> in_backoff_429 (snd p) \<Longrightarrow>
   \<not> in_backoff_429 q \<Longrightarrow> \<not> in_backoff_429 b"
proof -
  assume m: "(a, b) \<in> set (ts[i := (e, q)])" and old: "\<forall>p \<in> set ts. \<not> in_backoff_429 (snd p)"
    and q: "\<not> in_backoff_429 q"
  from m set_update_subset_insert[of ts i "(e, q)"] have "(a, b) = (e, q) \<or> (a, b) \<in> set ts"
    by blast
  then show ?thesis using old q by force
qed

lemma run_limiter_never_cleared:
  assumes "never_cleared s"
  shows "never_cleared (run_limiter cfg i s)"
  using assms
  by (cases "limiter_block (limit_per_sec cfg) (loop_time s) (prune (loop_time s) (window s))")
     (auto simp: run_limiter_def never_cleared_def Let_def dest: update_no_backoff)

lemma on_answer_no_429:
  assumes "\<not> is_429 (Answer i t)"
  shows "\<not> in_backoff_429 (on_answer float cfg now endpoint k t)"
proof (cases t)
  case (Responded r)
  with assms have "status r \<noteq> 429" by simp
  then show ?thesis using Responded
    by (auto simp: on_answer_def attempt_verdict_def handle_response_def
        split: body_read.splits)
qed (auto simp: on_answer_def attempt_verdict_def)

lemma step_never_cleared:
  assumes "never_cleared s" and "step float cfg s a = Some s'" and "\<not> is_429 a"
  shows "never_cleared s'"
proof (cases a)
  case (Tick d)
  with assms show ?thesis by (auto split: if_splits simp: never_cleared_def)
next
  case (Start i)
  with assms show ?thesis by (auto split: if_splits intro: run_limiter_never_cleared)
next
  case (Wake i)
  show ?thesis
  proof (cases "snd (tasks s ! i)")
    case (LimiterSleeping wake_at)
    with Wake assms(2) have "s' = run_limiter cfg i s" by (auto split: if_splits)
    with assms(1) show ?thesis by (simp add: run_limiter_never_cleared)
  next
    case (Backoff429 k wake_at)
    from Wake assms(2) have "i < length (tasks s)" by (auto split: if_splits)
    then have "tasks s ! i \<in> set (tasks s)" by simp
    with assms(1) Backoff429 show ?thesis by (auto simp: never_cleared_def)
  next
    case (BackoffError k wake_at)
    have "\<forall>p \<in> set ((tasks s)[i := (fst (tasks s ! i), InFlight (k + 1))]).
            \<not> in_backoff_429 (snd p)"
      using assms(1) set_update_subset_insert[of "tasks s" i "(fst (tasks s ! i), InFlight (k + 1))"]
      by (auto simp: never_cleared_def)
    with BackoffError Wake assms show ?thesis
      by (auto split: if_splits simp: never_cleared_def)
  qed (use Wake assms(2) in \<open>auto split: if_splits\<close>)
next
  case (Answer i t)
  show ?thesis
  proof (cases "snd (tasks s ! i)")
    case (InFlight k)
    let ?q = "on_answer float cfg (loop_time s) (fst (tasks s ! i)) k t"
    have "\<not> in_backoff_429 ?q" using assms(3) Answer by (intro on_answer_no_429) simp
    then have "\<forall>p \<in> set ((tasks s)[i := (fst (tasks s ! i), ?q)]). \<not> in_backoff_429 (snd p)"
      using assms(1) set_update_subset_insert[of "tasks s" i "(fst (tasks s ! i), ?q)"]
      by (auto simp: never_cleared_def)
    with InFlight Answer assms show ?thesis
      by (auto split: if_splits simp: never_cleared_def)
  qed (use Answer assms(2) in \<open>auto split: if_splits\<close>)
qed

lemma run_never_cleared:
  "never_cleared s \<Longrightarrow> run float cfg s acts = Some s' \<Longrightarrow> \<forall>a \<in> set acts. \<not> is_429 a \<Longrightarrow>
   never_cleared s'"
proof (induction acts arbitrary: s)
  case Nil
  then show ?case by simp
next
  case (Cons a acts)
  then show ?case by (auto split: option.splits dest: step_never_cleared)
qed

lemma initial_never_cleared: "never_cleared (initial t0 endpoints)"
  by (simp add: never_cleared_def initial_def)

text \<open>
  Claim C1, as the code has it. In every state that any interleaving of the calls of one
  client reaches, for every limit \<open>L\<close>: the shared window holds at most \<open>L\<close>
  timestamps, and of the request-starts recorded since the window was last reset by a 429
  response, at most \<open>L\<close> have their timestamp in any trailing 1-second window. In an
  interleaving in which no attempt is answered 429 this holds of all request-starts ever
  recorded. The limiter prunes, checks the size and appends within one step of a task, so
  no other task decides in between.
\<close>

theorem rate_window_bounded:
  assumes "run float cfg (initial t0 endpoints) acts = Some s"
  shows "length (window s) \<le> limit_per_sec cfg \<and>
         starts_within T (since_clear s) \<le> limit_per_sec cfg \<and>
         ((\<forall>a \<in> set acts. \<not> is_429 a) \<longrightarrow> starts_within T (admitted s) \<le> limit_per_sec cfg)"
proof -
  have inv: "window_inv (limit_per_sec cfg) s"
    using run_inv[OF initial_inv assms] .
  have "starts_within T (admitted s) \<le> limit_per_sec cfg" if "\<forall>a \<in> set acts. \<not> is_429 a"
    using run_never_cleared[OF initial_never_cleared assms that] inv
    by (auto simp: never_cleared_def window_inv_def)
  with inv show ?thesis by (auto simp: window_inv_def)
qed

text \<open>
  Witness for C1: four calls start at time 0 with the limit 3; three are admitted, the
  fourth sleeps and is admitted at time 1.
\<close>

theorem rate_window_bounded_witness:
  "run float_example KaitenConfig (initial 0 [''/a'', ''/b'', ''/c'', ''/d''])
     [Start 0, Start 1, Start 2, Start 3, Tick 1, Wake 3]
   = Some \<lparr>loop_time = 1, window = [1],
       tasks = [(''/a'', InFlight 1), (''/b'', InFlight 1), (''/c'', InFlight 1),
                (''/d'', InFlight 1)],
       admitted = [0, 0, 0, 1], since_clear = [0, 0, 0, 1]\<rparr> \<and>
   starts_within 1 [0, 0, 0, 1] \<le> limit_per_sec KaitenConfig"
  using rate_window_bounded[of float_example KaitenConfig 0 "[''/a'', ''/b'', ''/c'', ''/d'']"
      "[Start 0, Start 1, Start 2, Start 3, Tick 1, Wake 3]" _ 1]
  by (simp add: initial_def run_limiter_def limiter_block.simps prune_def on_answer_def
      attempt_verdict_def handle_response_def parse_retry_after_def float_example_def
      KaitenConfig_def MAX_RETRIES_def RETRY_DELAY_def LIMIT_PER_SEC_def answering_def
      KaitenApiError_init_def starts_within_def Let_def)

text \<open>
  Counterexample to C1 as stated, with the limit 3. A call starts at time 0 and is
  answered 429 without a \<open>Retry-After\<close> header, so it sleeps until time 1. Two calls start
  at time 0.9. At time 1 the first call wakes and empties the window, and two more calls
  start and are admitted at once: four recorded request-starts (0.9, 0.9, 1 and 1) lie in
  the trailing 1-second window that ends at time 1.
\<close>

theorem rate_window_counterexample:
  "run float_example KaitenConfig (initial 0 [''/a'', ''/b'', ''/c'', ''/d'', ''/e''])
     [Start 0, Answer 0 (answering 429 1), Tick (9 / 10), Start 1, Start 2, Tick (1 / 10),
      Wake 0, Start 3, Start 4]
   = Some \<lparr>loop_time = 1, window = [1, 1],
       tasks = [(''/a'', InFlight 2), (''/b'', InFlight 1), (''/c'', InFlight 1),
                (''/d'', InFlight 1), (''/e'', InFlight 1)],
       admitted = [0, 9 / 10, 9 / 10, 1, 1], since_clear = [1, 1]\<rparr> \<and>
   starts_within 1 [0, 9 / 10, 9 / 10, 1, 1] = 4 \<and>
   \<not> starts_within 1 [0, 9 / 10, 9 / 10, 1, 1] \<le> limit_per_sec KaitenConfig"
  by (simp add: initial_def run_limiter_def limiter_block.simps prune_def on_answer_def
      attempt_verdict_def handle_response_def parse_retry_after_def float_example_def
      KaitenConfig_def MAX_RETRIES_def RETRY_DELAY_def LIMIT_PER_SEC_def answering_def
      KaitenApiError_init_def starts_within_def Let_def)

end
